theory Spec2Isabelle
  imports Main
begin

section \<open>Python values used by \<open>routes/pdf_converter_optimized.py\<close>\<close>

text \<open>
  A Python \<open>str\<close> is a sequence of Unicode code points, and \<open>len\<close> counts code points,
  so a \<open>str\<close> is a list of natural numbers here.  A literal of the source is written
  \<open>py ''...''\<close>.  File contents are lists of byte values.
\<close>

type_synonym str = "nat list"
type_synonym bytes = "nat list"

definition py :: "string \<Rightarrow> str" where
  "py s = map of_char s"

text \<open>\<open>str(n)\<close> for a non-negative integer: its decimal digits.\<close>

function str_nat :: "nat \<Rightarrow> str" where
  "str_nat n = (if n < 10 then [48 + n] else str_nat (n div 10) @ [48 + n mod 10])"
  by pat_completeness auto
termination
  by (relation "measure id") auto

declare str_nat.simps [simp del]

text \<open>
  \<open>range(start, stop, step)\<close> for a positive step.  Python raises \<open>ValueError\<close> for
  step 0; the source only uses the constant step 1000, and the model returns the empty
  list for step 0.
\<close>

function py_range :: "nat \<Rightarrow> nat \<Rightarrow> nat \<Rightarrow> nat list" where
  "py_range i stop step =
     (if 0 < step \<and> i < stop then i # py_range (i + step) stop step else [])"
  by pat_completeness auto
termination
  by (relation "measure (\<lambda>(i, stop, step). stop - i)") auto

declare py_range.simps [simp del]

text \<open>The slice \<open>xs[i:j]\<close> for non-negative \<open>i\<close> and \<open>j\<close>.\<close>

definition py_slice :: "'a list \<Rightarrow> nat \<Rightarrow> nat \<Rightarrow> 'a list" where
  "py_slice xs i j = take (j - i) (drop i xs)"

section \<open>The chunker (lines 90 to 95)\<close>

definition max_chunk_size :: nat where
  "max_chunk_size = 1000"

definition chunk_delay :: nat where
  "chunk_delay = 2"

text \<open>
  \<open>chunks = [text[i:i+max_chunk_size] for i in range(0, len(text), max_chunk_size)]\<close>
\<close>

definition chunks_of :: "'a list \<Rightarrow> 'a list list" where
  "chunks_of text =
     map (\<lambda>i. py_slice text i (i + max_chunk_size)) (py_range 0 (length text) max_chunk_size)"

section \<open>Effects: exceptions, the file system, time and the speech backend\<close>

text \<open>
  A Python exception is a value; \<open>str_exn\<close> is \<open>str(e)\<close>.  \<open>Exception\<close> carries its
  message.  For \<open>FileNotFoundError\<close> the message is CPython's, with the file name in
  quotes (the \<open>repr\<close> of a name without quotes or backslashes).
\<close>

datatype exn = Exception str | FileNotFoundError str | AttributeError str

fun str_exn :: "exn \<Rightarrow> str" where
  "str_exn (Exception msg) = msg"
| "str_exn (FileNotFoundError name) =
     py ''[Errno 2] No such file or directory: '' @ [39] @ name @ [39]"
| "str_exn (AttributeError msg) = msg"

text \<open>
  The calls the program makes to the outside, in the order it makes them.
\<close>

datatype event =
    EvSleep nat
  | EvGTTS str str
  | EvTtsSave str
  | EvOpenWrite str
  | EvRead str
  | EvRemove str
  | EvMakedirs str
  | EvFileSave str
  | EvFitzOpen str

text \<open>
  A thread that the program has started and no longer waits for: what it still does,
  from the files, the time and the calls at which it picks up to those at which it ends.
\<close>

type_synonym thread =
  "(str \<rightharpoonup> bytes) \<times> nat \<times> event list \<Rightarrow> (str \<rightharpoonup> bytes) \<times> nat \<times> event list"

text \<open>
  The world: the files (a map from path to contents), a clock that counts the seconds
  spent in \<open>time.sleep\<close> and in calls to the backend, the calls made so far, and the
  threads left running.
\<close>

record world =
  fs :: "str \<rightharpoonup> bytes"
  clock :: nat
  trace :: "event list"
  detached :: "thread list"

text \<open>
  A run is observed at an instant \<open>dl\<close> (\<open>None\<close>: when it has ended).  It has returned
  a value, raised an exception, or is still \<open>Running\<close> at that instant.  The world
  returned with \<open>Running\<close> is the world at the instant \<open>dl\<close>, and \<open>Running\<close> carries
  the rest of the run: observing does not stop a run, it goes on to its end from the
  world in which the observer leaves it.
\<close>

datatype 'a outcome = Return 'a | Raise exn | Running "world \<Rightarrow> 'a outcome \<times> world"

type_synonym 'a prog = "world \<Rightarrow> 'a outcome \<times> world"

definition still_running :: "'a outcome \<Rightarrow> bool" where
  "still_running r = (case r of Running rest \<Rightarrow> True | _ \<Rightarrow> False)"

definition return :: "'a \<Rightarrow> 'a prog" where
  "return x w = (Return x, w)"

definition raise :: "exn \<Rightarrow> 'a prog" where
  "raise e w = (Raise e, w)"

text \<open>
  \<open>bnd m k\<close>: first \<open>m\<close>, then \<open>k\<close> on its value; an exception ends the run.  When \<open>m\<close>
  is still running at the instant of observation, so is \<open>bnd m k\<close>, and its rest is the
  rest of \<open>m\<close> followed by \<open>k\<close>.  \<open>then_do r k\<close> is how a run goes on with \<open>k\<close> after a
  step that ended with \<open>r\<close>; its third equation is
  \<open>then_do (Running rest) k w1 = (Running (\<lambda>w'. case rest w' of (r, w2) \<Rightarrow> then_do r k w2), w1)\<close>,
  written with \<open>map_prod\<close> for the recursion through the rest.
\<close>

primrec then_do :: "'a outcome \<Rightarrow> ('a \<Rightarrow> 'b prog) \<Rightarrow> 'b prog" where
  "then_do (Return x) k = k x"
| "then_do (Raise e) k = (\<lambda>w1. (Raise e, w1))"
| "then_do (Running rest) k =
     (\<lambda>w1. (Running (\<lambda>w'. (\<lambda>(go, w2). go w2) (map_prod (\<lambda>r. then_do r k) id (rest w'))),
            w1))"

definition bnd :: "'a prog \<Rightarrow> ('a \<Rightarrow> 'b prog) \<Rightarrow> 'b prog" where
  "bnd m k w =
     (case m w of
        (Return x, w1) \<Rightarrow> k x w1
      | (Raise e, w1) \<Rightarrow> (Raise e, w1)
      | (Running rest, w1) \<Rightarrow>
          (Running (\<lambda>w'. case rest w' of (r, w2) \<Rightarrow> then_do r k w2), w1))"

text \<open>
  \<open>try: m except Exception as e: h e\<close>; \<open>handle_with r h\<close> is how a run goes on after
  the body ended with \<open>r\<close>, as \<open>then_do\<close> above.
\<close>

primrec handle_with :: "'a outcome \<Rightarrow> (exn \<Rightarrow> 'a prog) \<Rightarrow> 'a prog" where
  "handle_with (Return x) h = (\<lambda>w1. (Return x, w1))"
| "handle_with (Raise e) h = h e"
| "handle_with (Running rest) h =
     (\<lambda>w1. (Running (\<lambda>w'. (\<lambda>(go, w2). go w2) (map_prod (\<lambda>r. handle_with r h) id (rest w'))),
            w1))"

definition try_except :: "'a prog \<Rightarrow> (exn \<Rightarrow> 'a prog) \<Rightarrow> 'a prog" where
  "try_except m h w =
     (case m w of
        (Return x, w1) \<Rightarrow> (Return x, w1)
      | (Raise e, w1) \<Rightarrow> h e w1
      | (Running rest, w1) \<Rightarrow>
          (Running (\<lambda>w'. case rest w' of (r, w2) \<Rightarrow> handle_with r h w2), w1))"

definition log :: "event \<Rightarrow> world \<Rightarrow> world" where
  "log ev w = w\<lparr>trace := trace w @ [ev]\<rparr>"

text \<open>
  A call that starts in \<open>w\<close>, takes \<open>d\<close> seconds and then ends as \<open>m\<close>.  Observed at an
  instant \<open>t\<close> that falls within the call, it is still running; its rest ends as \<open>m\<close> at
  the time the call ends (or at once, when the world in which it picks up is already
  past that time).  An instant of observation that has passed is of no effect.
\<close>

definition timed :: "nat option \<Rightarrow> nat \<Rightarrow> 'a prog \<Rightarrow> 'a prog" where
  "timed dl d m w =
     (case dl of
        None \<Rightarrow> m (w\<lparr>clock := clock w + d\<rparr>)
      | Some t \<Rightarrow>
          if clock w \<le> t \<and> t < clock w + d
          then (Running (\<lambda>w'. m (w'\<lparr>clock := max (clock w') (clock w + d)\<rparr>)), w\<lparr>clock := t\<rparr>)
          else m (w\<lparr>clock := clock w + d\<rparr>))"

text \<open>\<open>time.sleep(n)\<close>\<close>

definition sleep :: "nat option \<Rightarrow> nat \<Rightarrow> unit prog" where
  "sleep dl n w = timed dl n (return ()) (log (EvSleep n) w)"

subsection \<open>Files\<close>

text \<open>
  File operations take no time on the clock.  Opening a file for writing and removing an
  existing file always succeed; reading or removing a file that is not there raises
  \<open>FileNotFoundError\<close>.
\<close>

text \<open>\<open>open(path, 'wb')\<close>: the file is created or truncated.\<close>

definition open_wb :: "str \<Rightarrow> unit prog" where
  "open_wb path w = (Return (), (log (EvOpenWrite path) w)\<lparr>fs := (fs w)(path \<mapsto> [])\<rparr>)"

text \<open>\<open>with open(path, 'rb') as infile: infile.read()\<close>\<close>

definition read_file :: "str \<Rightarrow> bytes prog" where
  "read_file path w =
     (case fs w path of
        None \<Rightarrow> (Raise (FileNotFoundError path), log (EvRead path) w)
      | Some data \<Rightarrow> (Return data, log (EvRead path) w))"

text \<open>
  \<open>outfile.write(data)\<close> on the file opened at \<open>path\<close>: the data is appended to it.  When
  the path has been removed since, the data is lost with the unlinked file.
\<close>

definition write_to :: "str \<Rightarrow> bytes \<Rightarrow> unit prog" where
  "write_to path data w =
     (case fs w path of
        None \<Rightarrow> (Return (), w)
      | Some old \<Rightarrow> (Return (), w\<lparr>fs := (fs w)(path \<mapsto> old @ data)\<rparr>))"

text \<open>\<open>os.remove(path)\<close>\<close>

definition os_remove :: "str \<Rightarrow> unit prog" where
  "os_remove path w =
     (case fs w path of
        None \<Rightarrow> (Raise (FileNotFoundError path), log (EvRemove path) w)
      | Some data \<Rightarrow> (Return (), (log (EvRemove path) w)\<lparr>fs := (fs w)(path := None)\<rparr>))"

text \<open>\<open>os.path.exists(path)\<close>\<close>

definition os_path_exists :: "world \<Rightarrow> str \<Rightarrow> bool" where
  "os_path_exists w path = (fs w path \<noteq> None)"

subsection \<open>The gTTS library\<close>

text \<open>
  The speech backend is outside the repository.  It is a parameter: what a call does may
  depend on the whole world at the call (so on the time and on every earlier call).
  \<open>gtts_init\<close> answers the constructor \<open>gTTS(text=, lang=, slow=False)\<close> with the seconds it
  takes and the exception it raises, if any.  \<open>gtts_save\<close> answers \<open>tts.save(path)\<close> with
  the seconds it takes and either the audio bytes it writes to \<open>path\<close>, or the exception
  it raises together with what it leaves at \<open>path\<close> (\<open>None\<close>: the path is untouched,
  \<open>Some bs\<close>: a file holding the partial data \<open>bs\<close>).
\<close>

record tts =
  tts_text :: str
  tts_lang :: str
  tts_slow :: bool

record gtts_api =
  gtts_init :: "world \<Rightarrow> str \<Rightarrow> str \<Rightarrow> nat \<times> exn option"
  gtts_save :: "world \<Rightarrow> tts \<Rightarrow> nat \<times> (exn \<times> bytes option + bytes)"

definition gTTS :: "gtts_api \<Rightarrow> nat option \<Rightarrow> str \<Rightarrow> str \<Rightarrow> tts prog" where
  "gTTS B dl text language w =
     (case gtts_init B w text language of
        (d, None) \<Rightarrow>
          timed dl d (return \<lparr>tts_text = text, tts_lang = language, tts_slow = False\<rparr>)
            (log (EvGTTS text language) w)
      | (d, Some e) \<Rightarrow> timed dl d (raise e) (log (EvGTTS text language) w))"

fun set_content :: "str \<Rightarrow> bytes option \<Rightarrow> (str \<rightharpoonup> bytes) \<Rightarrow> (str \<rightharpoonup> bytes)" where
  "set_content path None files = files"
| "set_content path (Some bs) files = files(path \<mapsto> bs)"

definition put_file :: "str \<Rightarrow> bytes option \<Rightarrow> world \<Rightarrow> world" where
  "put_file path content w = w\<lparr>fs := set_content path content (fs w)\<rparr>"

text \<open>
  \<open>tts.save(path)\<close>; \<open>tts\<close> is \<open>None\<close> when the constructor wrapper fell through its loop
  without a value, and then the attribute access raises.
\<close>

definition tts_save :: "gtts_api \<Rightarrow> nat option \<Rightarrow> tts option \<Rightarrow> str \<Rightarrow> unit prog" where
  "tts_save B dl tts_obj path w =
     (case tts_obj of
        None \<Rightarrow>
          (Raise (AttributeError ([39] @ py ''NoneType'' @ [39] @
             py '' object has no attribute '' @ [39] @ py ''save'' @ [39])), w)
      | Some t \<Rightarrow>
          (case gtts_save B w t of
             (d, Inr audio) \<Rightarrow>
               timed dl d (\<lambda>w1. (Return (), put_file path (Some audio) w1))
                 (log (EvTtsSave path) w)
           | (d, Inl (e, left)) \<Rightarrow>
               timed dl d (\<lambda>w1. (Raise e, put_file path left w1))
                 (log (EvTtsSave path) w)))"

section \<open>The retry wrappers (lines 47 to 79)\<close>

text \<open>
  \<open>for attempt in range(max_retries)\<close>: the function runs the loop body for the attempts
  left.  A loop that ends without \<open>return\<close> gives Python's \<open>None\<close>.
\<close>

fun create_tts_attempts ::
  "gtts_api \<Rightarrow> nat option \<Rightarrow> str \<Rightarrow> str \<Rightarrow> nat \<Rightarrow> nat list \<Rightarrow> tts option prog" where
  "create_tts_attempts B dl text language max_retries [] w = (Return None, w)"
| "create_tts_attempts B dl text language max_retries (attempt # rest) w =
     try_except
       (bnd (gTTS B dl text language) (\<lambda>t. return (Some t)))
       (\<lambda>e. if attempt < max_retries - 1
            then bnd (sleep dl ((attempt + 1) * 2))
                   (\<lambda>_. create_tts_attempts B dl text language max_retries rest)
            else raise e) w"

definition create_tts_with_retry ::
  "gtts_api \<Rightarrow> nat option \<Rightarrow> str \<Rightarrow> str \<Rightarrow> nat \<Rightarrow> tts option prog" where
  "create_tts_with_retry B dl text language max_retries =
     create_tts_attempts B dl text language max_retries [0..<max_retries]"

fun save_tts_attempts ::
  "gtts_api \<Rightarrow> nat option \<Rightarrow> tts option \<Rightarrow> str \<Rightarrow> nat \<Rightarrow> nat list \<Rightarrow> unit prog" where
  "save_tts_attempts B dl tts_obj output_path max_retries [] w = (Return (), w)"
| "save_tts_attempts B dl tts_obj output_path max_retries (attempt # rest) w =
     try_except
       (tts_save B dl tts_obj output_path)
       (\<lambda>e. if attempt < max_retries - 1
            then bnd (sleep dl ((attempt + 1) * 2))
                   (\<lambda>_. save_tts_attempts B dl tts_obj output_path max_retries rest)
            else raise e) w"

definition save_tts_with_retry ::
  "gtts_api \<Rightarrow> nat option \<Rightarrow> tts option \<Rightarrow> str \<Rightarrow> nat \<Rightarrow> unit prog" where
  "save_tts_with_retry B dl tts_obj output_path max_retries =
     save_tts_attempts B dl tts_obj output_path max_retries [0..<max_retries]"

section \<open>The conversion (lines 81 to 146)\<close>

text \<open>\<open>temp_file = f"{output_path}.chunk_{i}.mp3"\<close>\<close>

definition temp_file_name :: "str \<Rightarrow> nat \<Rightarrow> str" where
  "temp_file_name output_path i = output_path @ py ''.chunk_'' @ str_nat i @ py ''.mp3''"

text \<open>Lines 104 and 105: one chunk is synthesized and saved, each with the default 3 tries.\<close>

definition synth_chunk :: "gtts_api \<Rightarrow> nat option \<Rightarrow> str \<Rightarrow> str \<Rightarrow> str \<Rightarrow> unit prog" where
  "synth_chunk B dl chunk language path =
     bnd (create_tts_with_retry B dl chunk language 3)
       (\<lambda>t. save_tts_with_retry B dl t path 3)"

text \<open>
  Lines 98 to 113, \<open>for i, chunk in enumerate(chunks)\<close>: \<open>n\<close> is \<open>len(chunks)\<close> and
  \<open>temp_files\<close> the list built so far.
\<close>

fun synth_chunks ::
  "gtts_api \<Rightarrow> nat option \<Rightarrow> str \<Rightarrow> str \<Rightarrow> nat \<Rightarrow> (nat \<times> str) list \<Rightarrow> str list
   \<Rightarrow> str list prog" where
  "synth_chunks B dl output_path language n [] temp_files w = (Return temp_files, w)"
| "synth_chunks B dl output_path language n ((i, chunk) # rest) temp_files w =
     bnd (synth_chunk B dl chunk language (temp_file_name output_path i))
       (\<lambda>_. bnd (if i < n - 1 then sleep dl chunk_delay else return ())
         (\<lambda>_. synth_chunks B dl output_path language n rest
                (temp_files @ [temp_file_name output_path i]))) w"

text \<open>Lines 118 to 121, \<open>for temp_file in temp_files\<close>, inside the open output file.\<close>

fun append_chunks :: "str \<Rightarrow> str list \<Rightarrow> unit prog" where
  "append_chunks output_path [] w = (Return (), w)"
| "append_chunks output_path (temp_file # rest) w =
     bnd (read_file temp_file)
       (\<lambda>data. bnd (write_to output_path data)
         (\<lambda>_. bnd (os_remove temp_file)
           (\<lambda>_. append_chunks output_path rest))) w"

text \<open>Lines 117 to 121: the assembly.\<close>

definition combine_chunks :: "str \<Rightarrow> str list \<Rightarrow> unit prog" where
  "combine_chunks output_path temp_files =
     bnd (open_wb output_path) (\<lambda>_. append_chunks output_path temp_files)"

text \<open>The \<open>try\<close> block of \<open>convert\<close>, lines 87 to 128.\<close>

definition convert_body :: "gtts_api \<Rightarrow> nat option \<Rightarrow> str \<Rightarrow> str \<Rightarrow> str \<Rightarrow> unit prog" where
  "convert_body B dl text output_path language =
     (if max_chunk_size < length text
      then bnd (synth_chunks B dl output_path language (length (chunks_of text))
                  (enumerate 0 (chunks_of text)) [])
             (\<lambda>temp_files. combine_chunks output_path temp_files)
      else synth_chunk B dl text language output_path)"

text \<open>
  The dictionary \<open>result\<close> shared by \<open>convert\<close> and its caller; it starts as
  \<open>{'success': False, 'error': None}\<close>.
\<close>

record result =
  success :: bool
  error :: "str option"

text \<open>
  \<open>convert\<close>, the body of the background thread: it ends with the dictionary it has
  filled in, or is still running at the instant of observation.
\<close>

definition convert :: "gtts_api \<Rightarrow> nat option \<Rightarrow> str \<Rightarrow> str \<Rightarrow> str \<Rightarrow> result prog" where
  "convert B dl text output_path language =
     try_except
       (bnd (convert_body B dl text output_path language)
          (\<lambda>_. return \<lparr>success = True, error = None\<rparr>))
       (\<lambda>e. return \<lparr>success = False, error = Some (str_exn e)\<rparr>)"

text \<open>\<open>f"{x}"\<close> for a value that is a string or \<open>None\<close>.\<close>

definition str_opt :: "str option \<Rightarrow> str" where
  "str_opt x = (case x of None \<Rightarrow> py ''None'' | Some s \<Rightarrow> s)"

definition timeout_message :: "nat \<Rightarrow> str" where
  "timeout_message timeout =
     py ''Text-to-speech conversion timed out after '' @ str_nat timeout @
     py '' seconds. Please try with a smaller PDF or check your internet connection.''"

text \<open>
  The rest of a run as a thread left running: it picks up with the files, the time and
  the calls it is given, and leaves those of the end of its run.
\<close>

definition thread_of :: "'a prog \<Rightarrow> thread" where
  "thread_of rest =
     (\<lambda>(files, time, calls).
        case rest \<lparr>fs = files, clock = time, trace = calls, detached = []\<rparr> of
          (r, w') \<Rightarrow> (fs w', clock w', trace w'))"

text \<open>
  The world once the threads left running have ended (one after the other; the program
  leaves at most one per request).
\<close>

definition settled :: "world \<Rightarrow> world" where
  "settled w =
     (case foldl (\<lambda>s th. th s) (fs w, clock w, trace w) (detached w) of
        (files, time, calls) \<Rightarrow> \<lparr>fs = files, clock = time, trace = calls, detached = []\<rparr>)"

text \<open>
  \<open>text_to_mp3_optimized\<close>, lines 135 to 146.  The thread starts at the caller's clock;
  \<open>thread.join(timeout)\<close> observes it \<open>timeout\<close> seconds later at the latest, and
  \<open>thread.is_alive()\<close> holds when the thread is still running at that instant.  The
  caller goes on in the world it then sees, and the thread, which nothing stops, is left
  running in it.
\<close>

definition text_to_mp3_optimized ::
  "gtts_api \<Rightarrow> str \<Rightarrow> str \<Rightarrow> str \<Rightarrow> nat \<Rightarrow> unit prog" where
  "text_to_mp3_optimized B text output_path language timeout w =
     (case convert B (Some (clock w + timeout)) text output_path language w of
        (Running rest, w1) \<Rightarrow>
          (Raise (Exception (timeout_message timeout)),
           w1\<lparr>detached := detached w1 @ [thread_of rest]\<rparr>)
      | (Return r, w1) \<Rightarrow>
          if \<not> success r
          then (Raise (Exception (py ''Error generating MP3: '' @ str_opt (error r))), w1)
          else (Return (), w1)
      | (Raise e, w1) \<Rightarrow> (Raise e, w1))"

section \<open>The upload handler (lines 17 to 27 and 148 to 270)\<close>

subsection \<open>The request, the response and the libraries\<close>

text \<open>An uploaded file (werkzeug's \<open>FileStorage\<close>): its name and its bytes.\<close>

record upload =
  filename :: str
  content :: bytes

record request =
  files :: "str \<rightharpoonup> upload"
  form :: "str \<rightharpoonup> str"

text \<open>\<open>jsonify({...}), status\<close>; a response without explicit status has status 200.\<close>

datatype json = JStr str | JBool bool | JInt nat

record response =
  body :: "(str \<times> json) list"
  status :: nat

definition json_error :: "str \<Rightarrow> nat \<Rightarrow> response" where
  "json_error msg code = \<lparr>body = [(py ''error'', JStr msg)], status = code\<rparr>"

text \<open>
  What the handler takes from outside the repository: the application's root path, the
  identifier \<open>str(uuid.uuid4())\<close> drawn for this request, werkzeug's \<open>secure_filename\<close>,
  the first component of \<open>os.path.splitext\<close>, and PyMuPDF: \<open>fitz_pages data\<close> is what
  \<open>fitz.open\<close> makes of a file with the bytes \<open>data\<close>, the exception it raises or the
  texts \<open>page.get_text()\<close> of its pages in order.
\<close>

record env =
  root_path :: str
  uuid4 :: str
  secure_filename :: "str \<Rightarrow> str"
  splitext_root :: "str \<Rightarrow> str"
  fitz_pages :: "bytes \<Rightarrow> exn + str list"

text \<open>\<open>os.path.join(a, b)\<close> on POSIX; 47 is the slash.\<close>

definition path_join :: "str \<Rightarrow> str \<Rightarrow> str" where
  "path_join a b =
     (if b \<noteq> [] \<and> hd b = 47 then b
      else if a = [] \<or> last a = 47 then a @ b
      else a @ [47] @ b)"

text \<open>
  \<open>str.isspace\<close> of one character and \<open>str.strip()\<close>: the code points that Python
  counts as whitespace.
\<close>

definition py_isspace :: "nat \<Rightarrow> bool" where
  "py_isspace c \<longleftrightarrow>
     (9 \<le> c \<and> c \<le> 13) \<or> (28 \<le> c \<and> c \<le> 32) \<or> c = 133 \<or> c = 160 \<or> c = 5760 \<or>
     (8192 \<le> c \<and> c \<le> 8202) \<or> c = 8232 \<or> c = 8233 \<or> c = 8239 \<or> c = 8287 \<or> c = 12288"

definition py_strip :: "str \<Rightarrow> str" where
  "py_strip s = rev (dropWhile py_isspace (rev (dropWhile py_isspace s)))"

text \<open>
  \<open>str.lower()\<close> on the letters A to Z.  No other code point lower-cases to \<open>p\<close>, \<open>d\<close>
  or \<open>f\<close>, so the comparison with \<open>'pdf'\<close> below is the source's.
\<close>

definition py_lower :: "str \<Rightarrow> str" where
  "py_lower s = map (\<lambda>c. if 65 \<le> c \<and> c \<le> 90 then c + 32 else c) s"

text \<open>\<open>s.rsplit('.', 1)[1]\<close> for a string that contains a dot (46): what follows the last dot.\<close>

definition after_last_dot :: "str \<Rightarrow> str" where
  "after_last_dot s = rev (takeWhile (\<lambda>c. c \<noteq> 46) (rev s))"

subsection \<open>Lines 14 to 45\<close>

definition UPLOAD_FOLDER :: str where
  "UPLOAD_FOLDER = py ''uploads''"

definition OUTPUT_FOLDER :: str where
  "OUTPUT_FOLDER = py ''outputs''"

definition ensure_folders :: "env \<Rightarrow> (str \<times> str) prog" where
  "ensure_folders E w =
     (let upload_path = path_join (root_path E) UPLOAD_FOLDER;
          output_path = path_join (root_path E) OUTPUT_FOLDER
      in (Return (upload_path, output_path),
          log (EvMakedirs output_path) (log (EvMakedirs upload_path) w)))"

definition allowed_file :: "str \<Rightarrow> bool" where
  "allowed_file name \<longleftrightarrow> 46 \<in> set name \<and> py_lower (after_last_dot name) = py ''pdf''"

text \<open>\<open>fitz.open(path)\<close> and the texts of the pages of the document.\<close>

definition fitz_open :: "env \<Rightarrow> str \<Rightarrow> str list prog" where
  "fitz_open E path w =
     (case fs w path of
        None \<Rightarrow>
          (Raise (Exception (py ''no such file: '' @ [39] @ path @ [39])),
           log (EvFitzOpen path) w)
      | Some data \<Rightarrow>
          (case fitz_pages E data of
             Inl e \<Rightarrow> (Raise e, log (EvFitzOpen path) w)
           | Inr pages \<Rightarrow> (Return pages, log (EvFitzOpen path) w)))"

definition pdf_to_text :: "env \<Rightarrow> str \<Rightarrow> str prog" where
  "pdf_to_text E pdf_path =
     try_except
       (bnd (fitz_open E pdf_path) (\<lambda>pages. return (concat pages)))
       (\<lambda>e. raise (Exception (py ''Error reading PDF: '' @ str_exn e)))"

subsection \<open>\<open>upload_file\<close>\<close>

definition max_size :: nat where
  "max_size = 10 * 1024 * 1024"

definition max_text_length :: nat where
  "max_text_length = 30000"

definition supported_languages :: "str list" where
  "supported_languages =
     [py ''en'', py ''es'', py ''fr'', py ''de'', py ''it'', py ''pt'', py ''ru'', py ''ja'',
      py ''ko'', py ''zh'']"

text \<open>\<open>file.save(path)\<close>\<close>

definition file_save :: "upload \<Rightarrow> str \<Rightarrow> unit prog" where
  "file_save file path w =
     (Return (), (log (EvFileSave path) w)\<lparr>fs := (fs w)(path \<mapsto> content file)\<rparr>)"

text \<open>
  Lines 196 to 206: the validation; its value is the response that the handler returns
  at once, if any.
\<close>

definition validate_pdf :: "env \<Rightarrow> str \<Rightarrow> response option prog" where
  "validate_pdf E pdf_path =
     try_except
       (bnd (fitz_open E pdf_path)
          (\<lambda>pages. if length pages = 0
             then bnd (os_remove pdf_path)
                    (\<lambda>_. return (Some (json_error (py ''Invalid PDF file - no pages found'') 400)))
             else return None))
       (\<lambda>e. bnd (os_remove pdf_path)
              (\<lambda>_. return (Some (json_error (py ''Invalid PDF file format'') 400))))"

text \<open>
  Lines 190 to 217: the file is saved, validated and its text extracted; the value is
  the response returned at once (\<open>Inl\<close>) or the extracted text (\<open>Inr\<close>).
\<close>

definition extract_text :: "env \<Rightarrow> upload \<Rightarrow> str \<Rightarrow> (response + str) prog" where
  "extract_text E file pdf_path =
     bnd (file_save file pdf_path)
       (\<lambda>_. bnd (validate_pdf E pdf_path)
         (\<lambda>early. case early of
            Some resp \<Rightarrow> return (Inl resp)
          | None \<Rightarrow>
              bnd (pdf_to_text E pdf_path)
                (\<lambda>text. if py_strip text = []
                   then bnd (os_remove pdf_path)
                          (\<lambda>_. return (Inl (json_error
                             (py ''The PDF contains no readable text. Please ensure your PDF has text content, not just images.'')
                             400)))
                   else return (Inr text))))"

text \<open>Lines 219 to 223.\<close>

definition cap_text :: "str \<Rightarrow> str" where
  "cap_text text =
     (if max_text_length < length text
      then take max_text_length text @ py ''... (text truncated due to length limit)''
      else text)"

text \<open>Lines 186 and 226: the names of the saved upload and of the audio file.\<close>

definition pdf_filename_of :: "env \<Rightarrow> upload \<Rightarrow> str" where
  "pdf_filename_of E file = uuid4 E @ py ''_'' @ secure_filename E (filename file)"

definition mp3_filename_of :: "env \<Rightarrow> upload \<Rightarrow> str" where
  "mp3_filename_of E file =
     uuid4 E @ py ''_'' @ splitext_root E (secure_filename E (filename file)) @ py ''.mp3''"

text \<open>Lines 231 to 237.\<close>

definition pick_language :: "request \<Rightarrow> str" where
  "pick_language req =
     (let language = (case form req (py ''language'') of None \<Rightarrow> py ''en'' | Some l \<Rightarrow> l)
      in if language \<notin> set supported_languages then py ''en'' else language)"

text \<open>
  Lines 219 to 254: the extracted text is capped, converted with the timeout of 900
  seconds, the uploaded file is removed and the success response is built.
\<close>

definition convert_and_respond ::
  "env \<Rightarrow> gtts_api \<Rightarrow> request \<Rightarrow> upload \<Rightarrow> str \<Rightarrow> str \<Rightarrow> str \<Rightarrow> response prog" where
  "convert_and_respond E B req file pdf_path output_path extracted =
     (let text = cap_text extracted;
          mp3_path = path_join output_path (mp3_filename_of E file)
      in bnd (text_to_mp3_optimized B text mp3_path (pick_language req) 900)
           (\<lambda>_. bnd (os_remove pdf_path)
             (\<lambda>_. return
                \<lparr>body = [(py ''success'', JBool True),
                         (py ''filename'', JStr (mp3_filename_of E file)),
                         (py ''text_length'', JInt (length text)),
                         (py ''message'', JStr (py ''Conversion completed successfully''))],
                 status = 200\<rparr>)))"

text \<open>\<open>if os.path.exists(path): os.remove(path)\<close>\<close>

definition remove_if_exists :: "str \<Rightarrow> unit prog" where
  "remove_if_exists path w = (if os_path_exists w path then os_remove path w else (Return (), w))"

text \<open>
  Lines 256 to 270, the handler of the outer \<open>try\<close>.  \<open>mp3_path\<close> is \<open>None\<close> when the
  variable is not yet in \<open>locals()\<close>.
\<close>

definition error_cleanup :: "str \<Rightarrow> str option \<Rightarrow> exn \<Rightarrow> response prog" where
  "error_cleanup pdf_path mp3_path e =
     bnd (try_except
            (bnd (remove_if_exists pdf_path)
               (\<lambda>_. case mp3_path of None \<Rightarrow> return () | Some p \<Rightarrow> remove_if_exists p))
            (\<lambda>_. return ()))
       (\<lambda>_. return (json_error (py ''An error occurred during conversion: '' @ str_exn e) 500))"

text \<open>
  Lines 180 to 270.  The source has one \<open>try\<close> whose handler asks which of \<open>pdf_path\<close>
  and \<open>mp3_path\<close> are in \<open>locals()\<close>; here the part that runs once \<open>mp3_path\<close> is
  assigned has the handler that knows it, and the part before has the handler that does
  not.  The handler itself cannot raise.
\<close>

definition handle_upload :: "env \<Rightarrow> gtts_api \<Rightarrow> request \<Rightarrow> upload \<Rightarrow> response prog" where
  "handle_upload E B req file =
     bnd (ensure_folders E)
       (\<lambda>(upload_path, output_path).
          let pdf_path = path_join upload_path (pdf_filename_of E file);
              mp3_path = path_join output_path (mp3_filename_of E file)
          in try_except
               (bnd (extract_text E file pdf_path)
                  (\<lambda>r. case r of
                     Inl resp \<Rightarrow> return resp
                   | Inr extracted \<Rightarrow>
                       try_except
                         (convert_and_respond E B req file pdf_path output_path extracted)
                         (error_cleanup pdf_path (Some mp3_path))))
               (error_cleanup pdf_path None))"

text \<open>The two paths of a request, as \<open>ensure_folders\<close> and lines 187 and 227 make them.\<close>

definition pdf_path_of :: "env \<Rightarrow> upload \<Rightarrow> str" where
  "pdf_path_of E file = path_join (path_join (root_path E) UPLOAD_FOLDER) (pdf_filename_of E file)"

definition mp3_path_of :: "env \<Rightarrow> upload \<Rightarrow> str" where
  "mp3_path_of E file = path_join (path_join (root_path E) OUTPUT_FOLDER) (mp3_filename_of E file)"

text \<open>Lines 152 to 178, then the rest.  \<open>file.tell()\<close> at the end of the stream is its size.\<close>

definition upload_file :: "env \<Rightarrow> gtts_api \<Rightarrow> request \<Rightarrow> response prog" where
  "upload_file E B req w =
     (case files req (py ''file'') of
        None \<Rightarrow> (Return (json_error (py ''No file uploaded'') 400), w)
      | Some file \<Rightarrow>
          if filename file = [] then (Return (json_error (py ''No file selected'') 400), w)
          else if \<not> allowed_file (filename file)
          then (Return (json_error (py ''Only PDF files are allowed'') 400), w)
          else if max_size < length (content file)
          then (Return (json_error (py ''File size must be less than 10MB'') 400), w)
          else handle_upload E B req file w)"

section \<open>What a run may touch\<close>

text \<open>
  \<open>confined P A w w'\<close>: from \<open>w\<close> to \<open>w'\<close> no file outside the set of paths \<open>P\<close> has
  changed, and the calls made in between all belong to \<open>A\<close>.  \<open>within P A m\<close>: every run
  of \<open>m\<close> is confined so, whatever its outcome.
\<close>

definition confined :: "str set \<Rightarrow> event set \<Rightarrow> world \<Rightarrow> world \<Rightarrow> bool" where
  "confined P A w w' \<longleftrightarrow>
     (\<forall>p. p \<notin> P \<longrightarrow> fs w' p = fs w p) \<and>
     (\<exists>evs. trace w' = trace w @ evs \<and> set evs \<subseteq> A)"

definition within :: "str set \<Rightarrow> event set \<Rightarrow> 'a prog \<Rightarrow> bool" where
  "within P A m \<longleftrightarrow> (\<forall>w. confined P A w (snd (m w)))"

section \<open>Observing a run at an instant\<close>

text \<open>
  \<open>observable m\<close>: the run of \<open>m\<close> observed at an instant \<open>t\<close> agrees with the run to its
  end.  The run to its end is never \<open>Running\<close>, the clock does not go back, and the
  threads left running are not touched.  An instant before the start of the run is of
  no effect.  An instant not before the start shows the end of the run when the run ends
  by \<open>t\<close>; when the run ends later, it shows \<open>Running\<close> with the clock at \<open>t\<close>, and the
  rest of the run, picked up in the world that was shown, ends as the run to its end does.
  \<open>timeless f\<close>: \<open>f\<close> takes no time, always ends, and leaves the threads alone.
\<close>

definition observable :: "(nat option \<Rightarrow> 'a prog) \<Rightarrow> bool" where
  "observable m \<longleftrightarrow>
     (\<forall>w t.
        (case m None w of
           (r, w') \<Rightarrow>
               \<not> still_running r \<and> clock w \<le> clock w' \<and> detached w' = detached w \<and>
               (t < clock w \<or> clock w' \<le> t \<longrightarrow> m (Some t) w = (r, w')) \<and>
               (clock w \<le> t \<and> t < clock w' \<longrightarrow>
                  (\<exists>rest w1. m (Some t) w = (Running rest, w1) \<and> clock w1 = t \<and>
                     detached w1 = detached w \<and> rest w1 = (r, w')))))"

definition timeless :: "'a prog \<Rightarrow> bool" where
  "timeless f \<longleftrightarrow>
     (\<forall>w. \<not> still_running (fst (f w)) \<and> clock (snd (f w)) = clock w \<and>
          detached (snd (f w)) = detached w)"

section \<open>Example worlds and backends\<close>

definition world0 :: world where
  "world0 = \<lparr>fs = Map.empty, clock = 0, trace = [], detached = []\<rparr>"

text \<open>
  A backend that is down: every constructor call fails after 1 second and every save
  fails after 3 seconds and leaves no file; the message of each exception is the time
  of the call.
\<close>

definition backend_down :: gtts_api where
  "backend_down =
     \<lparr>gtts_init = (\<lambda>w text language. (1, Some (Exception [clock w]))),
      gtts_save = (\<lambda>w t. (3, Inl (Exception [clock w], None)))\<rparr>"

definition tts0 :: tts where
  "tts0 = \<lparr>tts_text = py ''hi'', tts_lang = py ''en'', tts_slow = False\<rparr>"

text \<open>
  Worlds for the assembly of three chunks written to \<open>o\<close>: one with the three temporary
  files, one where the second is missing.
\<close>

definition world_full :: world where
  "world_full =
     \<lparr>fs = [py ''o.chunk_0.mp3'' \<mapsto> [7], py ''o.chunk_1.mp3'' \<mapsto> [8, 8],
            py ''o.chunk_2.mp3'' \<mapsto> [9]],
      clock = 0, trace = [], detached = []\<rparr>"

definition world_gap :: world where
  "world_gap =
     \<lparr>fs = [py ''o.chunk_0.mp3'' \<mapsto> [7], py ''o.chunk_2.mp3'' \<mapsto> [9]],
      clock = 0, trace = [], detached = []\<rparr>"

text \<open>
  A backend that refuses texts of exactly 500 characters and serves every other request
  in 1 second; the audio of a text is one byte holding its length.
\<close>

definition backend_picky :: gtts_api where
  "backend_picky =
     \<lparr>gtts_init = (\<lambda>w text language.
         if length text = 500 then (1, Some (Exception (py ''429''))) else (1, None)),
      gtts_save = (\<lambda>w t. (1, Inr [length (tts_text t)]))\<rparr>"

text \<open>
  An environment for the handler: the identity for \<open>secure_filename\<close>, a \<open>splitext\<close>
  that cuts at the last dot, and a PDF reader for which every non-empty file is one page
  whose text is the file's bytes.
\<close>

definition env0 :: env where
  "env0 =
     \<lparr>root_path = py ''/app'', uuid4 = py ''u1'', secure_filename = (\<lambda>name. name),
      splitext_root = (\<lambda>name. rev (drop 1 (dropWhile (\<lambda>c. c \<noteq> 46) (rev name)))),
      fitz_pages = (\<lambda>data. if data = [] then Inl (Exception (py ''empty'')) else Inr [data])\<rparr>"

definition small_pdf :: upload where
  "small_pdf = \<lparr>filename = py ''a.pdf'', content = py ''hi''\<rparr>"

definition request_of :: "upload \<Rightarrow> request" where
  "request_of file = \<lparr>files = [py ''file'' \<mapsto> file], form = Map.empty\<rparr>"

text \<open>
  A backend whose saves fail after 1 second and leave one byte at the path, and a backend
  whose constructor takes 1000 seconds.
\<close>

definition backend_partial :: gtts_api where
  "backend_partial =
     \<lparr>gtts_init = (\<lambda>w text language. (1, None)),
      gtts_save = (\<lambda>w t. (1, Inl (Exception (py ''reset''), Some [1])))\<rparr>"

definition backend_slow :: gtts_api where
  "backend_slow =
     \<lparr>gtts_init = (\<lambda>w text language. (1000, None)),
      gtts_save = (\<lambda>w t. (1, Inr [length (tts_text t)]))\<rparr>"

text \<open>
  A backend whose constructor fails after 400 seconds, whatever it is asked, and a backend
  whose constructor takes 1000 seconds and whose saves then fail after 1 second and leave
  one byte at the path.
\<close>

definition backend_stall :: gtts_api where
  "backend_stall =
     \<lparr>gtts_init = (\<lambda>w text language. (400, Some (Exception (py ''503'')))),
      gtts_save = (\<lambda>w t. (1, Inr []))\<rparr>"

definition backend_slow_partial :: gtts_api where
  "backend_slow_partial =
     \<lparr>gtts_init = (\<lambda>w text language. (1000, None)),
      gtts_save = (\<lambda>w t. (1, Inl (Exception (py ''reset''), Some [1])))\<rparr>"

text \<open>An upload whose text has 30001 characters.\<close>

definition long_pdf :: upload where
  "long_pdf = \<lparr>filename = py ''a.pdf'', content = replicate 30001 97\<rparr>"

text \<open>Two uploads of more than 10 MB.\<close>

definition big_txt :: upload where
  "big_txt = \<lparr>filename = py ''a.txt'', content = replicate 10485761 0\<rparr>"

definition big_pdf :: upload where
  "big_pdf = \<lparr>filename = py ''a.PDF'', content = replicate 10485761 0\<rparr>"

section \<open>Properties of the chunker\<close>







section \<open>Properties of the retry wrappers\<close>

lemma upt_3: "[0..<3] = [0, 1, 2]"
  by (simp add: upt_rec)

lemma sleep_None:
  "sleep None n w = (Return (), w\<lparr>clock := clock w + n, trace := trace w @ [EvSleep n]\<rparr>)"
  by (simp add: sleep_def timed_def log_def return_def)

lemma gTTS_None_fails:
  "gtts_init B w text language = (d, Some e) \<Longrightarrow>
   gTTS B None text language w =
     (Raise e, w\<lparr>clock := clock w + d, trace := trace w @ [EvGTTS text language]\<rparr>)"
  by (simp add: gTTS_def timed_def log_def raise_def)

lemma tts_save_None_fails:
  "gtts_save B w t = (d, Inl (e, left)) \<Longrightarrow>
   tts_save B None (Some t) path w =
     (Raise e,
      put_file path left (w\<lparr>clock := clock w + d, trace := trace w @ [EvTtsSave path]\<rparr>))"
  by (cases w) (simp add: tts_save_def timed_def log_def put_file_def)

lemma create_tts_fails_thrice:
  assumes fails: "\<And>w'. gtts_init B w' text language = (d w', Some (e w'))"
  shows "(let g = EvGTTS text language;
              w2 = w\<lparr>clock := clock w + d w + 2, trace := trace w @ [g, EvSleep 2]\<rparr>;
              w3 = w2\<lparr>clock := clock w2 + d w2 + 4, trace := trace w2 @ [g, EvSleep 4]\<rparr>
          in create_tts_with_retry B None text language 3 w =
               (Raise (e w3), w3\<lparr>clock := clock w3 + d w3, trace := trace w3 @ [g]\<rparr>))"
  by (cases w) (simp add: create_tts_with_retry_def upt_3 try_except_def bnd_def raise_def
      gTTS_None_fails [OF fails] sleep_None Let_def add.assoc)

lemma save_tts_fails_thrice:
  assumes fails: "\<And>w'. gtts_save B w' t = (d w', Inl (e w', left w'))"
  shows "(let s = EvTtsSave path;
              w1 = put_file path (left w)
                     (w\<lparr>clock := clock w + d w, trace := trace w @ [s]\<rparr>);
              w2 = w1\<lparr>clock := clock w1 + 2, trace := trace w1 @ [EvSleep 2]\<rparr>;
              w3 = put_file path (left w2)
                     (w2\<lparr>clock := clock w2 + d w2, trace := trace w2 @ [s]\<rparr>);
              w4 = w3\<lparr>clock := clock w3 + 4, trace := trace w3 @ [EvSleep 4]\<rparr>;
              w5 = put_file path (left w4)
                     (w4\<lparr>clock := clock w4 + d w4, trace := trace w4 @ [s]\<rparr>)
          in save_tts_with_retry B None (Some t) path 3 w = (Raise (e w4), w5))"
  by (cases w) (simp add: save_tts_with_retry_def upt_3 try_except_def bnd_def raise_def
      tts_save_None_fails [OF fails] sleep_None Let_def put_file_def add.assoc)

text \<open>
  C2: when every call of the backend fails (the constructor call taking \<open>d w'\<close> seconds
  and raising \<open>e w'\<close> in the world \<open>w'\<close> of the call, the save call likewise), each
  wrapper, with its default of 3 tries and run to its end, makes exactly three attempts,
  sleeps \<open>1 * 2\<close> seconds after the first failure and \<open>2 * 2\<close> after the second, does not
  sleep after the third, and raises the exception of the third attempt.  The worlds
  \<open>w2\<close>, \<open>w3\<close> (\<open>v2\<close>, \<open>v4\<close>) are those in which the second and third attempts start.
\<close>

theorem retry_wrappers_three_attempts_linear_backoff:
  assumes init_fails: "\<And>w'. gtts_init B w' text language = (d w', Some (e w'))"
      and save_fails: "\<And>w'. gtts_save B w' t = (ds w', Inl (es w', left w'))"
  shows "(let g = EvGTTS text language;
              w2 = w\<lparr>clock := clock w + d w + 2, trace := trace w @ [g, EvSleep 2]\<rparr>;
              w3 = w2\<lparr>clock := clock w2 + d w2 + 4, trace := trace w2 @ [g, EvSleep 4]\<rparr>
          in create_tts_with_retry B None text language 3 w =
               (Raise (e w3), w3\<lparr>clock := clock w3 + d w3, trace := trace w3 @ [g]\<rparr>))
       \<and> (let s = EvTtsSave path;
              v1 = put_file path (left w)
                     (w\<lparr>clock := clock w + ds w, trace := trace w @ [s]\<rparr>);
              v2 = v1\<lparr>clock := clock v1 + 2, trace := trace v1 @ [EvSleep 2]\<rparr>;
              v3 = put_file path (left v2)
                     (v2\<lparr>clock := clock v2 + ds v2, trace := trace v2 @ [s]\<rparr>);
              v4 = v3\<lparr>clock := clock v3 + 4, trace := trace v3 @ [EvSleep 4]\<rparr>;
              v5 = put_file path (left v4)
                     (v4\<lparr>clock := clock v4 + ds v4, trace := trace v4 @ [s]\<rparr>)
          in save_tts_with_retry B None (Some t) path 3 w = (Raise (es v4), v5))"
  using create_tts_fails_thrice [of B "text" language d e w, OF init_fails]
    save_tts_fails_thrice [of B t ds es left path w, OF save_fails]
  by simp

theorem retry_wrappers_three_attempts_linear_backoff_witness:
  "create_tts_with_retry backend_down None (py ''hi'') (py ''en'') 3 world0 =
     (Raise (Exception [8]),
      \<lparr>fs = Map.empty, clock = 9,
       trace = [EvGTTS (py ''hi'') (py ''en''), EvSleep 2, EvGTTS (py ''hi'') (py ''en''),
                EvSleep 4, EvGTTS (py ''hi'') (py ''en'')], detached = []\<rparr>)
   \<and> save_tts_with_retry backend_down None (Some tts0) (py ''o.mp3'') 3 world0 =
     (Raise (Exception [12]),
      \<lparr>fs = Map.empty, clock = 15,
       trace = [EvTtsSave (py ''o.mp3''), EvSleep 2, EvTtsSave (py ''o.mp3''),
                EvSleep 4, EvTtsSave (py ''o.mp3'')], detached = []\<rparr>)"
  using retry_wrappers_three_attempts_linear_backoff
    [where B = backend_down and w = world0 and t = tts0 and path = "py ''o.mp3''"
       and language = "py ''en''" and d = "\<lambda>w. 1" and e = "\<lambda>w. Exception [clock w]"
       and ds = "\<lambda>w. 3" and es = "\<lambda>w. Exception [clock w]" and left = "\<lambda>w. None",
     of "py ''hi''"]
  by (simp add: backend_down_def world0_def put_file_def Let_def)

section \<open>Properties of the assembly\<close>


lemma str_nat_nonempty: "str_nat n \<noteq> []"
  by (subst str_nat.simps) simp

lemma str_nat_inj: "str_nat a = str_nat b \<Longrightarrow> a = b"
proof (induction a arbitrary: b rule: str_nat.induct)
  case (1 a)
  show ?case
  proof (cases "a < 10")
    case True
    then have a: "str_nat a = [48 + a]" by (subst str_nat.simps) simp
    show ?thesis
    proof (cases "b < 10")
      case True
      then have "str_nat b = [48 + b]" by (subst str_nat.simps) simp
      with a "1.prems" show ?thesis by simp
    next
      case False
      then have "str_nat b = str_nat (b div 10) @ [48 + b mod 10]"
        by (subst str_nat.simps) simp
      with a "1.prems" str_nat_nonempty [of "b div 10"] show ?thesis by (simp add: append_eq_Cons_conv)
    qed
  next
    case False
    then have a: "str_nat a = str_nat (a div 10) @ [48 + a mod 10]"
      by (subst str_nat.simps) simp
    show ?thesis
    proof (cases "b < 10")
      case True
      then have "str_nat b = [48 + b]" by (subst str_nat.simps) simp
      with a "1.prems" str_nat_nonempty [of "a div 10"] show ?thesis by (simp add: append_eq_Cons_conv Cons_eq_append_conv)
    next
      case b: False
      then have "str_nat b = str_nat (b div 10) @ [48 + b mod 10]"
        by (subst str_nat.simps) simp
      with a "1.prems" have "str_nat (a div 10) = str_nat (b div 10)" and m: "a mod 10 = b mod 10"
        by simp_all
      with "1.IH" False have "a div 10 = b div 10" by blast
      with m show ?thesis by (metis div_mult_mod_eq)
    qed
  qed
qed

lemma temp_file_name_inj: "temp_file_name out i = temp_file_name out j \<Longrightarrow> i = j"
  by (simp add: temp_file_name_def str_nat_inj)

lemma temp_file_name_neq: "temp_file_name out i \<noteq> out" "out \<noteq> temp_file_name out i"
  by (simp_all add: temp_file_name_def py_def)

lemma distinct_temp_file_names: "distinct (map (temp_file_name out) [0..<n])"
  by (simp add: distinct_map inj_on_def) (blast dest: temp_file_name_inj)

lemma append_chunks_present:
  assumes "distinct temps" "out \<notin> set temps" "fs w out = Some acc"
    "\<forall>p \<in> set temps. fs w p \<noteq> None"
  shows "append_chunks out temps w =
     (Return (),
      w\<lparr>fs := (\<lambda>p. if p \<in> set temps then None
                    else if p = out then Some (acc @ concat (map (\<lambda>q. the (fs w q)) temps))
                    else fs w p),
        trace := trace w @ concat (map (\<lambda>q. [EvRead q, EvRemove q]) temps)\<rparr>)"
  using assms
proof (induction temps arbitrary: w acc)
  case Nil
  then show ?case by (cases w) (auto simp: fun_eq_iff)
next
  case (Cons t rest)
  from Cons.prems obtain data where data: "fs w t = Some data" by auto
  let ?w3 = "w\<lparr>trace := trace w @ [EvRead t, EvRemove t],
               fs := (fs w)(out \<mapsto> acc @ data, t := None)\<rparr>"
  have step: "append_chunks out (t # rest) w = append_chunks out rest ?w3"
    using data Cons.prems
    by (simp add: bnd_def read_file_def write_to_def os_remove_def log_def)
  let ?R = "?w3\<lparr>fs := (\<lambda>p. if p \<in> set rest then None
                    else if p = out then Some ((acc @ data) @ concat (map (\<lambda>q. the (fs ?w3 q)) rest))
                    else fs ?w3 p),
        trace := trace ?w3 @ concat (map (\<lambda>q. [EvRead q, EvRemove q]) rest)\<rparr>"
  have ih: "append_chunks out rest ?w3 = (Return (), ?R)"
    using Cons.prems by (intro Cons.IH) auto
  have same: "map (\<lambda>q. the (fs ?w3 q)) rest = map (\<lambda>q. the (fs w q)) rest"
    using Cons.prems by auto
  have eq: "?R = w\<lparr>fs := (\<lambda>p. if p \<in> set (t # rest) then None
                    else if p = out then Some (acc @ concat (map (\<lambda>q. the (fs w q)) (t # rest)))
                    else fs w p),
        trace := trace w @ concat (map (\<lambda>q. [EvRead q, EvRemove q]) (t # rest))\<rparr>"
    unfolding same using data Cons.prems by (cases w) (auto simp: fun_eq_iff)
  show ?case
    unfolding step ih eq ..
qed


lemma append_chunks_append:
  "append_chunks out (xs @ ys) w = bnd (append_chunks out xs) (\<lambda>_. append_chunks out ys) w"
proof (induction xs arbitrary: w)
  case Nil
  show ?case by (simp add: bnd_def)
next
  case (Cons x xs)
  show ?case
  proof (cases "fs w x")
    case None
    then show ?thesis
      by (simp add: bnd_def read_file_def)
  next
    case (Some data)
    then show ?thesis
      by (cases "fs w out")
         (simp_all add: bnd_def read_file_def write_to_def os_remove_def log_def Cons.IH)
  qed
qed

lemma append_chunks_missing:
  assumes "distinct pre" "out \<notin> set pre" "fs w out = Some acc"
    "\<forall>p \<in> set pre. fs w p \<noteq> None" "fs w m = None" "m \<notin> set pre" "m \<noteq> out"
  shows "append_chunks out (pre @ m # post) w =
     (Raise (FileNotFoundError m),
      w\<lparr>fs := (\<lambda>p. if p \<in> set pre then None
                    else if p = out then Some (acc @ concat (map (\<lambda>q. the (fs w q)) pre))
                    else fs w p),
        trace := trace w @ concat (map (\<lambda>q. [EvRead q, EvRemove q]) pre) @ [EvRead m]\<rparr>)"
  using assms
  by (simp add: append_chunks_append append_chunks_present bnd_def read_file_def log_def)

lemma temp_names_3:
  "map (temp_file_name (py ''o'')) [0..<3] =
     [py ''o.chunk_0.mp3'', py ''o.chunk_1.mp3'', py ''o.chunk_2.mp3'']"
  by (simp add: upt_3 temp_file_name_def str_nat.simps py_def)

text \<open>
  With the second of three temporary files missing, the assembly raises for that file
  and the third temporary file, which exists and could be removed, is still there
  afterwards.
\<close>

theorem assembly_failure_leaves_chunk_counterexample:
  "fst (combine_chunks (py ''o'') (map (temp_file_name (py ''o'')) [0..<3]) world_gap) =
     Raise (FileNotFoundError (py ''o.chunk_1.mp3''))
   \<and> fs (snd (combine_chunks (py ''o'') (map (temp_file_name (py ''o'')) [0..<3]) world_gap))
       (py ''o.chunk_2.mp3'') = Some [9]"
  unfolding temp_names_3
  by (simp add: combine_chunks_def world_gap_def bnd_def open_wb_def read_file_def write_to_def
      os_remove_def log_def py_def)


lemma temp_names_facts:
  "distinct (map (temp_file_name out) [0..<n])"
  "out \<notin> set (map (temp_file_name out) [0..<n])"
  using distinct_temp_file_names [of out n] temp_file_name_neq [of out] by auto

lemma combine_chunks_present:
  assumes "\<forall>p \<in> set temps. fs w p \<noteq> None" "distinct temps" "out \<notin> set temps"
  shows "combine_chunks out temps w =
     (Return (),
      w\<lparr>fs := (\<lambda>p. if p \<in> set temps then None
                    else if p = out then Some (concat (map (\<lambda>q. the (fs w q)) temps))
                    else fs w p),
        trace := trace w @ EvOpenWrite out # concat (map (\<lambda>q. [EvRead q, EvRemove q]) temps)\<rparr>)"
proof -
  let ?w1 = "w\<lparr>trace := trace w @ [EvOpenWrite out], fs := (fs w)(out \<mapsto> [])\<rparr>"
  have same: "map (\<lambda>q. the (fs ?w1 q)) temps = map (\<lambda>q. the (fs w q)) temps"
    using assms by auto
  have "combine_chunks out temps w = append_chunks out temps ?w1"
    by (simp add: combine_chunks_def bnd_def open_wb_def log_def)
  also have "\<dots> = (Return (),
      ?w1\<lparr>fs := (\<lambda>p. if p \<in> set temps then None
                    else if p = out then Some ([] @ concat (map (\<lambda>q. the (fs ?w1 q)) temps))
                    else fs ?w1 p),
        trace := trace ?w1 @ concat (map (\<lambda>q. [EvRead q, EvRemove q]) temps)\<rparr>)"
    using assms by (intro append_chunks_present) auto
  also have "\<dots> = (Return (),
      w\<lparr>fs := (\<lambda>p. if p \<in> set temps then None
                    else if p = out then Some (concat (map (\<lambda>q. the (fs w q)) temps))
                    else fs w p),
        trace := trace w @ EvOpenWrite out # concat (map (\<lambda>q. [EvRead q, EvRemove q]) temps)\<rparr>)"
    unfolding same by (cases w) (auto simp: fun_eq_iff)
  finally show ?thesis .
qed

lemma combine_chunks_missing:
  assumes "\<forall>p \<in> set pre. fs w p \<noteq> None" "fs w m = None"
    "distinct (pre @ m # post)" "out \<notin> set (pre @ m # post)"
  shows "combine_chunks out (pre @ m # post) w =
     (Raise (FileNotFoundError m),
      w\<lparr>fs := (\<lambda>p. if p \<in> set pre then None
                    else if p = out then Some (concat (map (\<lambda>q. the (fs w q)) pre))
                    else fs w p),
        trace := trace w @ EvOpenWrite out #
                   concat (map (\<lambda>q. [EvRead q, EvRemove q]) pre) @ [EvRead m]\<rparr>)"
proof -
  let ?w1 = "w\<lparr>trace := trace w @ [EvOpenWrite out], fs := (fs w)(out \<mapsto> [])\<rparr>"
  have same: "map (\<lambda>q. the (fs ?w1 q)) pre = map (\<lambda>q. the (fs w q)) pre"
    using assms by auto
  have "combine_chunks out (pre @ m # post) w = append_chunks out (pre @ m # post) ?w1"
    by (simp add: combine_chunks_def bnd_def open_wb_def log_def)
  also have "\<dots> = (Raise (FileNotFoundError m),
      ?w1\<lparr>fs := (\<lambda>p. if p \<in> set pre then None
                    else if p = out then Some ([] @ concat (map (\<lambda>q. the (fs ?w1 q)) pre))
                    else fs ?w1 p),
        trace := trace ?w1 @ concat (map (\<lambda>q. [EvRead q, EvRemove q]) pre) @ [EvRead m]\<rparr>)"
    using assms by (intro append_chunks_missing) auto
  also have "\<dots> = (Raise (FileNotFoundError m),
      w\<lparr>fs := (\<lambda>p. if p \<in> set pre then None
                    else if p = out then Some (concat (map (\<lambda>q. the (fs w q)) pre))
                    else fs w p),
        trace := trace w @ EvOpenWrite out #
                   concat (map (\<lambda>q. [EvRead q, EvRemove q]) pre) @ [EvRead m]\<rparr>)"
    unfolding same by (cases w) (auto simp: fun_eq_iff)
  finally show ?thesis .
qed

text \<open>
  C4: when the \<open>n\<close> temporary files of the chunks hold the bytes \<open>audio ! 0\<close>, ...,
  \<open>audio ! (n - 1)\<close>, the assembly returns normally, the destination then holds exactly
  the concatenation of these bytes in index order, none of the \<open>n\<close> temporary files
  exists any more, and no other file has changed.
\<close>

theorem assembly_concatenates_and_removes:
  assumes len: "length audio = n"
      and known: "\<forall>i<n. fs w (temp_file_name out i) = Some (audio ! i)"
  shows "case combine_chunks out (map (temp_file_name out) [0..<n]) w of
           (r, w') \<Rightarrow>
               r = Return ()
             \<and> fs w' out = Some (concat audio)
             \<and> (\<forall>i<n. fs w' (temp_file_name out i) = None)
             \<and> (\<forall>p. p \<noteq> out \<and> p \<notin> temp_file_name out ` {..<n} \<longrightarrow> fs w' p = fs w p)"
proof -
  let ?temps = "map (temp_file_name out) [0..<n]"
  have present: "\<forall>p \<in> set ?temps. fs w p \<noteq> None"
    using known by auto
  have contents: "map (\<lambda>q. the (fs w q)) ?temps = audio"
    using len known by (auto simp: list_eq_iff_nth_eq)
  have set_temps: "set ?temps = temp_file_name out ` {..<n}"
    by (auto simp: lessThan_def)
  show ?thesis
    unfolding combine_chunks_present [OF present temp_names_facts] contents
    using temp_file_name_neq [of out] by (auto simp: set_temps)
qed

theorem assembly_concatenates_and_removes_witness:
  "length [[7], [8, 8], [9::nat]] = 3
   \<and> fst (combine_chunks (py ''o'') (map (temp_file_name (py ''o'')) [0..<3]) world_full) =
       Return ()
   \<and> fs (snd (combine_chunks (py ''o'') (map (temp_file_name (py ''o'')) [0..<3]) world_full))
       (py ''o'') = Some [7, 8, 8, 9]
   \<and> fs (snd (combine_chunks (py ''o'') (map (temp_file_name (py ''o'')) [0..<3]) world_full))
       (temp_file_name (py ''o'') 0) = None
   \<and> fs (snd (combine_chunks (py ''o'') (map (temp_file_name (py ''o'')) [0..<3]) world_full))
       (temp_file_name (py ''o'') 1) = None
   \<and> fs (snd (combine_chunks (py ''o'') (map (temp_file_name (py ''o'')) [0..<3]) world_full))
       (temp_file_name (py ''o'') 2) = None"
proof -
  have len: "length [[7], [8, 8], [9::nat]] = 3" by simp
  have known: "\<forall>i<3. fs world_full (temp_file_name (py ''o'') i) = Some ([[7], [8, 8], [9]] ! i)"
    by (auto simp: less_Suc_eq numeral_3_eq_3 temp_file_name_def str_nat.simps py_def
        world_full_def)
  from assembly_concatenates_and_removes [OF len known]
  show ?thesis by (auto split: prod.splits)
qed

text \<open>
  C6, as amended: when the temporary file of index \<open>k\<close> is the first that is missing, the
  assembly raises the error for that file; the temporary files before it have been
  deleted, the missing one and every later one are left as they were (the later ones are
  not deleted), and the destination holds the concatenation of the files before it.
\<close>

theorem assembly_failure_keeps_later_chunks:
  assumes k: "k < n"
      and present: "\<forall>i<k. fs w (temp_file_name out i) \<noteq> None"
      and missing: "fs w (temp_file_name out k) = None"
  shows "case combine_chunks out (map (temp_file_name out) [0..<n]) w of
           (r, w') \<Rightarrow>
               r = Raise (FileNotFoundError (temp_file_name out k))
             \<and> (\<forall>i<k. fs w' (temp_file_name out i) = None)
             \<and> (\<forall>i\<ge>k. fs w' (temp_file_name out i) = fs w (temp_file_name out i))
             \<and> fs w' out = Some (concat (map (\<lambda>i. the (fs w (temp_file_name out i))) [0..<k]))"
proof -
  let ?pre = "map (temp_file_name out) [0..<k]"
  let ?post = "map (temp_file_name out) [Suc k..<n]"
  have split: "map (temp_file_name out) [0..<n] = ?pre @ temp_file_name out k # ?post"
  proof -
    have "[0..<n] = [0..<k] @ k # [Suc k..<n]"
      using k by (metis le0 le_add_diff_inverse less_imp_le_nat upt_add_eq_append upt_conv_Cons)
    then show ?thesis by simp
  qed
  have pre_present: "\<forall>p \<in> set ?pre. fs w p \<noteq> None"
    using present by auto
  have d: "distinct (?pre @ temp_file_name out k # ?post)"
    using temp_names_facts(1) [of out n] unfolding split .
  have o: "out \<notin> set (?pre @ temp_file_name out k # ?post)"
    using temp_names_facts(2) [of out n] unfolding split .
  have later: "temp_file_name out i \<notin> set ?pre" if "k \<le> i" for i
    using that by (auto dest: temp_file_name_inj)
  show ?thesis
    unfolding split combine_chunks_missing [OF pre_present missing d o]
    using temp_file_name_neq [of out] later by (auto simp: comp_def)
qed


theorem assembly_failure_keeps_later_chunks_witness:
  "fs world_gap (temp_file_name (py ''o'') 0) = Some [7]
   \<and> fs world_gap (temp_file_name (py ''o'') 1) = None
   \<and> fst (combine_chunks (py ''o'') (map (temp_file_name (py ''o'')) [0..<3]) world_gap) =
       Raise (FileNotFoundError (temp_file_name (py ''o'') 1))
   \<and> fs (snd (combine_chunks (py ''o'') (map (temp_file_name (py ''o'')) [0..<3]) world_gap))
       (temp_file_name (py ''o'') 0) = None
   \<and> fs (snd (combine_chunks (py ''o'') (map (temp_file_name (py ''o'')) [0..<3]) world_gap))
       (temp_file_name (py ''o'') 2) = Some [9]
   \<and> fs (snd (combine_chunks (py ''o'') (map (temp_file_name (py ''o'')) [0..<3]) world_gap))
       (py ''o'') = Some [7]"
proof -
  have k: "(1::nat) < 3" by simp
  have first: "fs world_gap (temp_file_name (py ''o'') 0) = Some [7]"
    by (simp add: temp_file_name_def str_nat.simps py_def world_gap_def)
  have present: "\<forall>i<1. fs world_gap (temp_file_name (py ''o'') i) \<noteq> None"
    using first by simp
  have missing: "fs world_gap (temp_file_name (py ''o'') 1) = None"
    by (simp add: temp_file_name_def str_nat.simps py_def world_gap_def)
  have last: "fs world_gap (temp_file_name (py ''o'') 2) = Some [9]"
    by (simp add: temp_file_name_def str_nat.simps py_def world_gap_def)
  from assembly_failure_keeps_later_chunks [OF k present missing] first missing last
  show ?thesis by (auto split: prod.splits)
qed

section \<open>Properties of observing a run\<close>

text \<open>The third equations of \<open>then_do\<close> and \<open>handle_with\<close>, as they are read.\<close>

lemma then_do_Running:
  "then_do (Running rest) k w1 =
     (Running (\<lambda>w'. case rest w' of (r, w2) \<Rightarrow> then_do r k w2), w1)"
  by (simp add: fun_eq_iff split: prod.split)

lemma handle_with_Running:
  "handle_with (Running rest) h w1 =
     (Running (\<lambda>w'. case rest w' of (r, w2) \<Rightarrow> handle_with r h w2), w1)"
  by (simp add: fun_eq_iff split: prod.split)

declare then_do.simps(3) [simp del] handle_with.simps(3) [simp del]
declare then_do_Running [simp] handle_with_Running [simp]

lemma still_running_simps [simp]:
  "\<not> still_running (Return x)" "\<not> still_running (Raise e)" "still_running (Running rest)"
  by (simp_all add: still_running_def)

lemma observableI:
  assumes "\<And>w t r w'. m None w = (r, w') \<Longrightarrow>
      \<not> still_running r \<and> clock w \<le> clock w' \<and> detached w' = detached w \<and>
      (t < clock w \<or> clock w' \<le> t \<longrightarrow> m (Some t) w = (r, w')) \<and>
      (clock w \<le> t \<and> t < clock w' \<longrightarrow>
         (\<exists>rest w1. m (Some t) w = (Running rest, w1) \<and> clock w1 = t \<and>
            detached w1 = detached w \<and> rest w1 = (r, w')))"
  shows "observable m"
  unfolding observable_def
proof (intro allI)
  fix w :: world and t :: nat
  obtain r w' where e: "m None w = (r, w')" by force
  from assms [OF e, of t]
  show "case m None w of
           (r, w') \<Rightarrow>
               \<not> still_running r \<and> clock w \<le> clock w' \<and> detached w' = detached w \<and>
               (t < clock w \<or> clock w' \<le> t \<longrightarrow> m (Some t) w = (r, w')) \<and>
               (clock w \<le> t \<and> t < clock w' \<longrightarrow>
                  (\<exists>rest w1. m (Some t) w = (Running rest, w1) \<and> clock w1 = t \<and>
                     detached w1 = detached w \<and> rest w1 = (r, w')))"
    unfolding e prod.case .
qed

lemma observableD:
  assumes "observable m" "m None w = (r, w')"
  shows "\<not> still_running r" "clock w \<le> clock w'" "detached w' = detached w"
    "t < clock w \<or> clock w' \<le> t \<Longrightarrow> m (Some t) w = (r, w')"
    "clock w \<le> t \<Longrightarrow> t < clock w' \<Longrightarrow>
       \<exists>rest w1. m (Some t) w = (Running rest, w1) \<and> clock w1 = t \<and>
          detached w1 = detached w \<and> rest w1 = (r, w')"
proof -
  note a = assms(1) [unfolded observable_def, THEN spec, THEN spec, of w t,
      unfolded assms(2) prod.case]
  note a2 = conjunct2 [OF a]
  note a3 = conjunct2 [OF a2]
  note a4 = conjunct2 [OF a3]
  show "\<not> still_running r" by (rule conjunct1 [OF a])
  show "clock w \<le> clock w'" by (rule conjunct1 [OF a2])
  show "detached w' = detached w" by (rule conjunct1 [OF a3])
  show "t < clock w \<or> clock w' \<le> t \<Longrightarrow> m (Some t) w = (r, w')"
    by (rule mp [OF conjunct1 [OF a4]])
  show "clock w \<le> t \<Longrightarrow> t < clock w' \<Longrightarrow>
       \<exists>rest w1. m (Some t) w = (Running rest, w1) \<and> clock w1 = t \<and>
          detached w1 = detached w \<and> rest w1 = (r, w')"
    by (rule mp [OF conjunct2 [OF a4]]) (rule conjI)
qed

lemma observable_timeless:
  assumes "timeless f"
  shows "observable (\<lambda>dl. f)"
proof (rule observableI)
  fix w t r w'
  assume run: "f w = (r, w')"
  from assms have "\<not> still_running (fst (f w))" "clock (snd (f w)) = clock w"
    "detached (snd (f w)) = detached w"
    by (simp_all add: timeless_def)
  with run
  show "\<not> still_running r \<and> clock w \<le> clock w' \<and> detached w' = detached w \<and>
      (t < clock w \<or> clock w' \<le> t \<longrightarrow> f w = (r, w')) \<and>
      (clock w \<le> t \<and> t < clock w' \<longrightarrow>
         (\<exists>rest w1. f w = (Running rest, w1) \<and> clock w1 = t \<and>
            detached w1 = detached w \<and> rest w1 = (r, w')))"
    by auto
qed

lemma observable_bnd:
  assumes m: "observable m" and k: "\<And>x. observable (\<lambda>dl. k dl x)"
  shows "observable (\<lambda>dl. bnd (m dl) (k dl))"
proof (rule observableI)
  fix w t r w'
  assume run: "bnd (m None) (k None) w = (r, w')"
  obtain r1 w1 where m1: "m None w = (r1, w1)" by force
  note d1 = observableD [OF m m1]
  let ?goal = "\<not> still_running r \<and> clock w \<le> clock w' \<and> detached w' = detached w \<and>
      (t < clock w \<or> clock w' \<le> t \<longrightarrow> bnd (m (Some t)) (k (Some t)) w = (r, w')) \<and>
      (clock w \<le> t \<and> t < clock w' \<longrightarrow>
         (\<exists>rest w1. bnd (m (Some t)) (k (Some t)) w = (Running rest, w1) \<and> clock w1 = t \<and>
            detached w1 = detached w \<and> rest w1 = (r, w')))"
  show ?goal
  proof (cases r1)
    case (Return x)
    with run m1 have k2: "k None x w1 = (r, w')" by (simp add: bnd_def)
    note d2 = observableD [OF k k2]
    have early: "bnd (m (Some t)) (k (Some t)) w = (r, w')" if "t < clock w \<or> clock w' \<le> t"
    proof -
      from that d2(2) have "t < clock w \<or> clock w1 \<le> t" by auto
      from d1(4) [OF this] Return have m2: "m (Some t) w = (Return x, w1)" by simp
      from that d1(2) have "t < clock w1 \<or> clock w' \<le> t" by auto
      from d2(4) [OF this] m2 show ?thesis by (simp add: bnd_def)
    qed
    have late: "\<exists>rest wp. bnd (m (Some t)) (k (Some t)) w = (Running rest, wp) \<and> clock wp = t \<and>
            detached wp = detached w \<and> rest wp = (r, w')" if a: "clock w \<le> t" and b: "t < clock w'"
    proof (cases "clock w1 \<le> t")
      case True
      then have "t < clock w \<or> clock w1 \<le> t" by simp
      from d1(4) [OF this] Return have m2: "m (Some t) w = (Return x, w1)" by simp
      from d2(5) [OF True b] obtain rest wp where
        "k (Some t) x w1 = (Running rest, wp)" "clock wp = t" "detached wp = detached w1"
        "rest wp = (r, w')" by blast
      with m2 d1(3) show ?thesis by (simp add: bnd_def)
    next
      case False
      then have l: "t < clock w1" by simp
      from d1(5) [OF a l] obtain rest wp where p:
        "m (Some t) w = (Running rest, wp)" "clock wp = t" "detached wp = detached w"
        "rest wp = (r1, w1)" by blast
      from l have "t < clock w1 \<or> clock w' \<le> t" by simp
      from d2(4) [OF this] have "k (Some t) x w1 = (r, w')" .
      with p Return show ?thesis by (simp add: bnd_def)
    qed
    from d1(2) d2(2) have mono: "clock w \<le> clock w'" by simp
    from d1(3) d2(3) have det: "detached w' = detached w" by simp
    note nr = d2(1)
    show ?thesis
    proof (intro conjI impI)
      show "\<not> still_running r" by (rule nr)
      show "clock w \<le> clock w'" by (rule mono)
      show "detached w' = detached w" by (rule det)
      show "bnd (m (Some t)) (k (Some t)) w = (r, w')" if "t < clock w \<or> clock w' \<le> t"
        using that by (rule early)
      show "\<exists>rest w1. bnd (m (Some t)) (k (Some t)) w = (Running rest, w1) \<and> clock w1 = t \<and>
            detached w1 = detached w \<and> rest w1 = (r, w')" if "clock w \<le> t \<and> t < clock w'"
        using that late by blast
    qed
  next
    case (Raise e)
    with run m1 have eq: "r = Raise e" "w' = w1" by (simp_all add: bnd_def)
    have early: "bnd (m (Some t)) (k (Some t)) w = (r, w')" if "t < clock w \<or> clock w' \<le> t"
      using d1(4) [of t] that Raise eq by (simp add: bnd_def)
    have late: "\<exists>rest wp. bnd (m (Some t)) (k (Some t)) w = (Running rest, wp) \<and> clock wp = t \<and>
            detached wp = detached w \<and> rest wp = (r, w')" if a: "clock w \<le> t" and b: "t < clock w'"
    proof -
      from d1(5) [OF a] b eq obtain rest wp where p:
        "m (Some t) w = (Running rest, wp)" "clock wp = t" "detached wp = detached w"
        "rest wp = (r1, w1)" by blast
      with Raise eq show ?thesis by (simp add: bnd_def)
    qed
    from d1(1) Raise eq have nr: "\<not> still_running r" by simp
    from d1(2) eq have mono: "clock w \<le> clock w'" by simp
    from d1(3) eq have det: "detached w' = detached w" by simp
    show ?thesis
    proof (intro conjI impI)
      show "\<not> still_running r" by (rule nr)
      show "clock w \<le> clock w'" by (rule mono)
      show "detached w' = detached w" by (rule det)
      show "bnd (m (Some t)) (k (Some t)) w = (r, w')" if "t < clock w \<or> clock w' \<le> t"
        using that by (rule early)
      show "\<exists>rest w1. bnd (m (Some t)) (k (Some t)) w = (Running rest, w1) \<and> clock w1 = t \<and>
            detached w1 = detached w \<and> rest w1 = (r, w')" if "clock w \<le> t \<and> t < clock w'"
        using that late by blast
    qed
  next
    case (Running rest)
    with d1(1) have False by simp
    then show ?thesis ..
  qed
qed

lemma observable_try_except:
  assumes m: "observable m" and h: "\<And>x. observable (\<lambda>dl. h dl x)"
  shows "observable (\<lambda>dl. try_except (m dl) (h dl))"
proof (rule observableI)
  fix w t r w'
  assume run: "try_except (m None) (h None) w = (r, w')"
  obtain r1 w1 where m1: "m None w = (r1, w1)" by force
  note d1 = observableD [OF m m1]
  let ?goal = "\<not> still_running r \<and> clock w \<le> clock w' \<and> detached w' = detached w \<and>
      (t < clock w \<or> clock w' \<le> t \<longrightarrow> try_except (m (Some t)) (h (Some t)) w = (r, w')) \<and>
      (clock w \<le> t \<and> t < clock w' \<longrightarrow>
         (\<exists>rest w1. try_except (m (Some t)) (h (Some t)) w = (Running rest, w1) \<and> clock w1 = t \<and>
            detached w1 = detached w \<and> rest w1 = (r, w')))"
  show ?goal
  proof (cases r1)
    case (Raise x)
    with run m1 have k2: "h None x w1 = (r, w')" by (simp add: try_except_def)
    note d2 = observableD [OF h k2]
    have early: "try_except (m (Some t)) (h (Some t)) w = (r, w')" if "t < clock w \<or> clock w' \<le> t"
    proof -
      from that d2(2) have "t < clock w \<or> clock w1 \<le> t" by auto
      from d1(4) [OF this] Raise have m2: "m (Some t) w = (Raise x, w1)" by simp
      from that d1(2) have "t < clock w1 \<or> clock w' \<le> t" by auto
      from d2(4) [OF this] m2 show ?thesis by (simp add: try_except_def)
    qed
    have late: "\<exists>rest wp. try_except (m (Some t)) (h (Some t)) w = (Running rest, wp) \<and> clock wp = t \<and>
            detached wp = detached w \<and> rest wp = (r, w')" if a: "clock w \<le> t" and b: "t < clock w'"
    proof (cases "clock w1 \<le> t")
      case True
      then have "t < clock w \<or> clock w1 \<le> t" by simp
      from d1(4) [OF this] Raise have m2: "m (Some t) w = (Raise x, w1)" by simp
      from d2(5) [OF True b] obtain rest wp where
        "h (Some t) x w1 = (Running rest, wp)" "clock wp = t" "detached wp = detached w1"
        "rest wp = (r, w')" by blast
      with m2 d1(3) show ?thesis by (simp add: try_except_def)
    next
      case False
      then have l: "t < clock w1" by simp
      from d1(5) [OF a l] obtain rest wp where p:
        "m (Some t) w = (Running rest, wp)" "clock wp = t" "detached wp = detached w"
        "rest wp = (r1, w1)" by blast
      from l have "t < clock w1 \<or> clock w' \<le> t" by simp
      from d2(4) [OF this] have "h (Some t) x w1 = (r, w')" .
      with p Raise show ?thesis by (simp add: try_except_def)
    qed
    from d1(2) d2(2) have mono: "clock w \<le> clock w'" by simp
    from d1(3) d2(3) have det: "detached w' = detached w" by simp
    note nr = d2(1)
    show ?thesis
    proof (intro conjI impI)
      show "\<not> still_running r" by (rule nr)
      show "clock w \<le> clock w'" by (rule mono)
      show "detached w' = detached w" by (rule det)
      show "try_except (m (Some t)) (h (Some t)) w = (r, w')" if "t < clock w \<or> clock w' \<le> t"
        using that by (rule early)
      show "\<exists>rest w1. try_except (m (Some t)) (h (Some t)) w = (Running rest, w1) \<and> clock w1 = t \<and>
            detached w1 = detached w \<and> rest w1 = (r, w')" if "clock w \<le> t \<and> t < clock w'"
        using that late by blast
    qed
  next
    case (Return e)
    with run m1 have eq: "r = Return e" "w' = w1" by (simp_all add: try_except_def)
    have early: "try_except (m (Some t)) (h (Some t)) w = (r, w')" if "t < clock w \<or> clock w' \<le> t"
      using d1(4) [of t] that Return eq by (simp add: try_except_def)
    have late: "\<exists>rest wp. try_except (m (Some t)) (h (Some t)) w = (Running rest, wp) \<and> clock wp = t \<and>
            detached wp = detached w \<and> rest wp = (r, w')" if a: "clock w \<le> t" and b: "t < clock w'"
    proof -
      from d1(5) [OF a] b eq obtain rest wp where p:
        "m (Some t) w = (Running rest, wp)" "clock wp = t" "detached wp = detached w"
        "rest wp = (r1, w1)" by blast
      with Return eq show ?thesis by (simp add: try_except_def)
    qed
    from d1(1) Return eq have nr: "\<not> still_running r" by simp
    from d1(2) eq have mono: "clock w \<le> clock w'" by simp
    from d1(3) eq have det: "detached w' = detached w" by simp
    show ?thesis
    proof (intro conjI impI)
      show "\<not> still_running r" by (rule nr)
      show "clock w \<le> clock w'" by (rule mono)
      show "detached w' = detached w" by (rule det)
      show "try_except (m (Some t)) (h (Some t)) w = (r, w')" if "t < clock w \<or> clock w' \<le> t"
        using that by (rule early)
      show "\<exists>rest w1. try_except (m (Some t)) (h (Some t)) w = (Running rest, w1) \<and> clock w1 = t \<and>
            detached w1 = detached w \<and> rest w1 = (r, w')" if "clock w \<le> t \<and> t < clock w'"
        using that late by blast
    qed
  next
    case (Running rest)
    with d1(1) have False by simp
    then show ?thesis ..
  qed
qed


lemma observable_if:
  "observable a \<Longrightarrow> observable b \<Longrightarrow> observable (\<lambda>dl. if c then a dl else b dl)"
  by (cases c) (simp_all add: observable_def)

lemma timeless_return: "timeless (return x)"
  by (simp add: timeless_def return_def)

lemma timeless_raise: "timeless (raise e)"
  by (simp add: timeless_def raise_def)

lemma timelessD:
  assumes "timeless m" "m w = (r, w1)"
  shows "\<not> still_running r" "clock w1 = clock w" "detached w1 = detached w"
  using assms(1) [unfolded timeless_def, THEN spec, of w] assms(2) by simp_all

lemma timeless_bnd:
  assumes "timeless m" "\<And>x. timeless (k x)"
  shows "timeless (bnd m k)"
  unfolding timeless_def
proof
  fix w
  obtain r w1 where m: "m w = (r, w1)" by force
  note a = timelessD [OF assms(1) m]
  show "\<not> still_running (fst (bnd m k w)) \<and> clock (snd (bnd m k w)) = clock w \<and>
      detached (snd (bnd m k w)) = detached w"
  proof (cases r)
    case (Return x)
    obtain r2 w2 where k: "k x w1 = (r2, w2)" by force
    note b = timelessD [OF assms(2) k]
    from m a b k Return show ?thesis by (simp add: bnd_def)
  next
    case (Raise e)
    with m a show ?thesis by (simp add: bnd_def)
  next
    case (Running rest)
    with a(1) show ?thesis by simp
  qed
qed

lemma timeless_try_except:
  assumes "timeless m" "\<And>x. timeless (h x)"
  shows "timeless (try_except m h)"
  unfolding timeless_def
proof
  fix w
  obtain r w1 where m: "m w = (r, w1)" by force
  note a = timelessD [OF assms(1) m]
  show "\<not> still_running (fst (try_except m h w)) \<and> clock (snd (try_except m h w)) = clock w \<and>
      detached (snd (try_except m h w)) = detached w"
  proof (cases r)
    case (Raise x)
    obtain r2 w2 where k: "h x w1 = (r2, w2)" by force
    note b = timelessD [OF assms(2) k]
    from m a b k Raise show ?thesis by (simp add: try_except_def)
  next
    case (Return e)
    with m a show ?thesis by (simp add: try_except_def)
  next
    case (Running rest)
    with a(1) show ?thesis by simp
  qed
qed

lemma timeless_files:
  "timeless (open_wb p)" "timeless (read_file p)" "timeless (write_to p d)"
  "timeless (os_remove p)"
  by (simp_all add: timeless_def open_wb_def read_file_def write_to_def os_remove_def log_def
      split: option.split)

lemma timeless_append_chunks: "timeless (append_chunks out temps)"
proof (induction temps)
  case Nil
  show ?case by (simp add: timeless_def)
next
  case (Cons a temps)
  have "timeless (bnd (read_file a)
       (\<lambda>data. bnd (write_to out data)
         (\<lambda>_. bnd (os_remove a)
           (\<lambda>_. append_chunks out temps))))"
    by (intro timeless_bnd timeless_files Cons)
  then show ?case by (simp add: timeless_def)
qed

lemma timeless_combine_chunks: "timeless (combine_chunks out temps)"
  unfolding combine_chunks_def
  by (intro timeless_bnd timeless_files timeless_append_chunks)

lemma observable_return: "observable (\<lambda>dl. return x)"
  by (intro observable_timeless timeless_return)

lemma observable_raise: "observable (\<lambda>dl. raise e)"
  by (intro observable_timeless timeless_raise)

lemma observable_timed:
  assumes "timeless m"
  shows "observable (\<lambda>dl. timed dl d m)"
proof (rule observableI)
  fix w t r w'
  assume run: "timed None d m w = (r, w')"
  then have run': "m (w\<lparr>clock := clock w + d\<rparr>) = (r, w')" by (simp add: timed_def)
  note a = timelessD [OF assms run']
  have early: "timed (Some t) d m w = (r, w')" if "t < clock w \<or> clock w' \<le> t"
    using that a(2) run' by (auto simp: timed_def)
  have late: "\<exists>rest w1. timed (Some t) d m w = (Running rest, w1) \<and> clock w1 = t \<and>
            detached w1 = detached w \<and> rest w1 = (r, w')" if "clock w \<le> t \<and> t < clock w'"
  proof -
    from that a(2) have c: "clock w \<le> t \<and> t < clock w + d" by simp
    then have "max t (clock w + d) = clock w + d" by simp
    with c run' show ?thesis by (simp add: timed_def)
  qed
  from a early late
  show "\<not> still_running r \<and> clock w \<le> clock w' \<and> detached w' = detached w \<and>
      (t < clock w \<or> clock w' \<le> t \<longrightarrow> timed (Some t) d m w = (r, w')) \<and>
      (clock w \<le> t \<and> t < clock w' \<longrightarrow>
         (\<exists>rest w1. timed (Some t) d m w = (Running rest, w1) \<and> clock w1 = t \<and>
            detached w1 = detached w \<and> rest w1 = (r, w')))"
    by simp
qed

lemma observable_after:
  assumes "observable m" "\<And>w. clock (f w) = clock w" "\<And>w. detached (f w) = detached w"
  shows "observable (\<lambda>dl w. m dl (f w))"
proof (rule observableI)
  fix w t r w'
  assume run: "m None (f w) = (r, w')"
  note d = observableD [OF assms(1) run, unfolded assms(2,3)]
  show "\<not> still_running r \<and> clock w \<le> clock w' \<and> detached w' = detached w \<and>
      (t < clock w \<or> clock w' \<le> t \<longrightarrow> m (Some t) (f w) = (r, w')) \<and>
      (clock w \<le> t \<and> t < clock w' \<longrightarrow>
         (\<exists>rest w1. m (Some t) (f w) = (Running rest, w1) \<and> clock w1 = t \<and>
            detached w1 = detached w \<and> rest w1 = (r, w')))"
  proof (intro conjI impI)
    show "\<not> still_running r" by (rule d(1))
    show "clock w \<le> clock w'" by (rule d(2))
    show "detached w' = detached w" by (rule d(3))
    show "m (Some t) (f w) = (r, w')" if "t < clock w \<or> clock w' \<le> t"
      using that by (rule d(4))
    show "\<exists>rest w1. m (Some t) (f w) = (Running rest, w1) \<and> clock w1 = t \<and>
            detached w1 = detached w \<and> rest w1 = (r, w')" if "clock w \<le> t \<and> t < clock w'"
      using d(5) [OF conjunct1 [OF that] conjunct2 [OF that]] .
  qed
qed

lemma log_keeps [simp]: "clock (log ev w) = clock w" "detached (log ev w) = detached w"
  "fs (log ev w) = fs w" "trace (log ev w) = trace w @ [ev]"
  by (simp_all add: log_def)

lemma observable_sleep: "observable (\<lambda>dl. sleep dl n)"
proof -
  have "observable (\<lambda>dl w. timed dl n (return ()) (log (EvSleep n) w))"
    by (rule observable_after [OF observable_timed [OF timeless_return]]) simp_all
  then show ?thesis by (simp add: sleep_def [abs_def])
qed

lemma observable_call:
  assumes tl: "\<And>w. timeless (m w)" and fc: "\<And>w. clock (f w) = clock w"
    and fd: "\<And>w. detached (f w) = detached w"
  shows "observable (\<lambda>dl w. timed dl (d w) (m w) (f w))"
proof (rule observableI)
  fix w t r w'
  assume run: "timed None (d w) (m w) (f w) = (r, w')"
  then have run': "m w ((f w)\<lparr>clock := clock w + d w\<rparr>) = (r, w')" by (simp add: timed_def fc)
  note a = timelessD [OF tl run', simplified, unfolded fd]
  have early: "timed (Some t) (d w) (m w) (f w) = (r, w')" if "t < clock w \<or> clock w' \<le> t"
    using that a(2) run' by (auto simp: timed_def fc)
  have late: "\<exists>rest w1. timed (Some t) (d w) (m w) (f w) = (Running rest, w1) \<and> clock w1 = t \<and>
            detached w1 = detached w \<and> rest w1 = (r, w')" if "clock w \<le> t \<and> t < clock w'"
  proof -
    from that a(2) have c: "clock w \<le> t \<and> t < clock w + d w" by simp
    then have "max t (clock w + d w) = clock w + d w" by simp
    with c run' show ?thesis by (simp add: timed_def fc fd)
  qed
  from a early late
  show "\<not> still_running r \<and> clock w \<le> clock w' \<and> detached w' = detached w \<and>
      (t < clock w \<or> clock w' \<le> t \<longrightarrow> timed (Some t) (d w) (m w) (f w) = (r, w')) \<and>
      (clock w \<le> t \<and> t < clock w' \<longrightarrow>
         (\<exists>rest w1. timed (Some t) (d w) (m w) (f w) = (Running rest, w1) \<and> clock w1 = t \<and>
            detached w1 = detached w \<and> rest w1 = (r, w')))"
    by simp
qed

lemma observable_gTTS: "observable (\<lambda>dl. gTTS B dl text language)"
proof -
  have eq: "(\<lambda>dl. gTTS B dl text language) =
      (\<lambda>dl w. timed dl (fst (gtts_init B w text language))
         (case snd (gtts_init B w text language) of
            None \<Rightarrow> return \<lparr>tts_text = text, tts_lang = language, tts_slow = False\<rparr>
          | Some e \<Rightarrow> raise e)
         (log (EvGTTS text language) w))"
    by (intro ext) (simp add: gTTS_def split: prod.split option.split)
  show ?thesis
    unfolding eq
    by (rule observable_call) (simp_all add: timeless_return timeless_raise split: option.split)
qed

lemma timeless_put:
  "timeless (\<lambda>w1. (Return x, put_file path c w1))" "timeless (\<lambda>w1. (Raise e, put_file path c w1))"
  by (simp_all add: timeless_def put_file_def)

lemma observable_tts_save: "observable (\<lambda>dl. tts_save B dl t path)"
proof (cases t)
  case None
  have "timeless (tts_save B dl None path)" for dl
    by (simp add: timeless_def tts_save_def)
  then have "timeless (\<lambda>w. tts_save B None None path w)" .
  moreover have "(\<lambda>dl. tts_save B dl None path) = (\<lambda>dl. tts_save B None None path)"
    by (intro ext) (simp add: tts_save_def)
  ultimately show ?thesis unfolding None by (simp only: observable_timeless)
next
  case (Some a)
  have eq: "(\<lambda>dl. tts_save B dl (Some a) path) =
      (\<lambda>dl w. timed dl (fst (gtts_save B w a))
         (case snd (gtts_save B w a) of
            Inr audio \<Rightarrow> (\<lambda>w1. (Return (), put_file path (Some audio) w1))
          | Inl (e, left) \<Rightarrow> (\<lambda>w1. (Raise e, put_file path left w1)))
         (log (EvTtsSave path) w))"
    by (intro ext) (simp add: tts_save_def split: prod.split sum.split)
  show ?thesis
    unfolding Some eq
    by (rule observable_call) (simp_all add: timeless_put split: sum.split prod.split)
qed

lemma observable_create_tts_attempts:
  "observable (\<lambda>dl. create_tts_attempts B dl text language m atts)"
proof (induction atts)
  case Nil
  have "(\<lambda>dl. create_tts_attempts B dl text language m []) = (\<lambda>dl. return None)"
    by (intro ext) (simp add: return_def)
  then show ?case by (simp only: observable_return)
next
  case (Cons a atts)
  have "(\<lambda>dl. create_tts_attempts B dl text language m (a # atts)) =
     (\<lambda>dl. try_except
       (bnd (gTTS B dl text language) (\<lambda>t. return (Some t)))
       (\<lambda>e. if a < m - 1
            then bnd (sleep dl ((a + 1) * 2))
                   (\<lambda>_. create_tts_attempts B dl text language m atts)
            else raise e))"
    by (intro ext) simp
  moreover have "observable (\<lambda>dl. try_except
       (bnd (gTTS B dl text language) (\<lambda>t. return (Some t)))
       (\<lambda>e. if a < m - 1
            then bnd (sleep dl ((a + 1) * 2))
                   (\<lambda>_. create_tts_attempts B dl text language m atts)
            else raise e))"
    by (intro observable_try_except observable_bnd observable_if observable_gTTS
        observable_return observable_raise observable_sleep Cons.IH)
  ultimately show ?case by simp
qed

lemma observable_save_tts_attempts:
  "observable (\<lambda>dl. save_tts_attempts B dl t path m atts)"
proof (induction atts)
  case Nil
  have "(\<lambda>dl. save_tts_attempts B dl t path m []) = (\<lambda>dl. return ())"
    by (intro ext) (simp add: return_def)
  then show ?case by (simp only: observable_return)
next
  case (Cons a atts)
  have "(\<lambda>dl. save_tts_attempts B dl t path m (a # atts)) =
     (\<lambda>dl. try_except (tts_save B dl t path)
       (\<lambda>e. if a < m - 1
            then bnd (sleep dl ((a + 1) * 2)) (\<lambda>_. save_tts_attempts B dl t path m atts)
            else raise e))"
    by (intro ext) simp
  moreover have "observable (\<lambda>dl. try_except (tts_save B dl t path)
       (\<lambda>e. if a < m - 1
            then bnd (sleep dl ((a + 1) * 2)) (\<lambda>_. save_tts_attempts B dl t path m atts)
            else raise e))"
    by (intro observable_try_except observable_bnd observable_if observable_tts_save
        observable_raise observable_sleep Cons.IH)
  ultimately show ?case by simp
qed

lemma observable_synth_chunk: "observable (\<lambda>dl. synth_chunk B dl chunk language path)"
  unfolding synth_chunk_def create_tts_with_retry_def save_tts_with_retry_def
  by (intro observable_bnd observable_create_tts_attempts observable_save_tts_attempts)

lemma observable_synth_chunks:
  "observable (\<lambda>dl. synth_chunks B dl out language n ics temps)"
proof (induction ics arbitrary: temps)
  case Nil
  have "(\<lambda>dl. synth_chunks B dl out language n [] temps) = (\<lambda>dl. return temps)"
    by (intro ext) (simp add: return_def)
  then show ?case by (simp only: observable_return)
next
  case (Cons ic ics)
  obtain i chunk where ic: "ic = (i, chunk)" by force
  have "(\<lambda>dl. synth_chunks B dl out language n ((i, chunk) # ics) temps) =
     (\<lambda>dl. bnd (synth_chunk B dl chunk language (temp_file_name out i))
       (\<lambda>_. bnd (if i < n - 1 then sleep dl chunk_delay else return ())
         (\<lambda>_. synth_chunks B dl out language n ics (temps @ [temp_file_name out i]))))"
    by (intro ext) simp
  moreover have "observable (\<lambda>dl. bnd (synth_chunk B dl chunk language (temp_file_name out i))
       (\<lambda>_. bnd (if i < n - 1 then sleep dl chunk_delay else return ())
         (\<lambda>_. synth_chunks B dl out language n ics (temps @ [temp_file_name out i]))))"
    by (intro observable_bnd observable_if observable_synth_chunk observable_sleep
        observable_return Cons.IH)
  ultimately show ?case by (simp add: ic)
qed

lemma observable_convert_body:
  "observable (\<lambda>dl. convert_body B dl text out language)"
  unfolding convert_body_def
  by (intro observable_if observable_bnd observable_synth_chunks observable_synth_chunk
      observable_timeless timeless_combine_chunks)

lemma observable_convert: "observable (\<lambda>dl. convert B dl text out language)"
  unfolding convert_def
  by (intro observable_try_except observable_bnd observable_convert_body observable_return)

section \<open>Properties of the conversion\<close>

lemma confined_refl: "confined P A w w"
  by (simp add: confined_def)

lemma confined_trans: "confined P A w w1 \<Longrightarrow> confined P A w1 w2 \<Longrightarrow> confined P A w w2"
  by (fastforce simp: confined_def)

lemma within_mono: "within P A m \<Longrightarrow> P \<subseteq> P' \<Longrightarrow> A \<subseteq> A' \<Longrightarrow> within P' A' m"
  by (fastforce simp: within_def confined_def)

lemma within_return: "within P A (return x)"
  by (simp add: within_def return_def confined_refl)

lemma within_raise: "within P A (raise e)"
  by (simp add: within_def raise_def confined_refl)

lemma within_bnd:
  assumes "within P A m" "\<And>x. within P A (k x)"
  shows "within P A (bnd m k)"
  unfolding within_def
proof
  fix w
  obtain r w1 where m: "m w = (r, w1)" by force
  from assms(1) m have c1: "confined P A w w1" by (auto simp: within_def dest: spec [of _ w])
  show "confined P A w (snd (bnd m k w))"
  proof (cases r)
    case (Return x)
    from assms(2) [of x] have "confined P A w1 (snd (k x w1))" by (simp add: within_def)
    with c1 m Return show ?thesis by (auto simp: bnd_def intro: confined_trans)
  qed (use c1 m in \<open>simp_all add: bnd_def\<close>)
qed

lemma within_try_except:
  assumes "within P A m" "\<And>e. within P A (h e)"
  shows "within P A (try_except m h)"
  unfolding within_def
proof
  fix w
  obtain r w1 where m: "m w = (r, w1)" by force
  from assms(1) m have c1: "confined P A w w1" by (auto simp: within_def dest: spec [of _ w])
  show "confined P A w (snd (try_except m h w))"
  proof (cases r)
    case (Raise e)
    from assms(2) [of e] have "confined P A w1 (snd (h e w1))" by (simp add: within_def)
    with c1 m Raise show ?thesis by (auto simp: try_except_def intro: confined_trans)
  qed (use c1 m in \<open>simp_all add: try_except_def\<close>)
qed

lemma within_gTTS: "within {} {EvGTTS text language} (gTTS B dl text language)"
  by (auto simp: within_def confined_def gTTS_def timed_def log_def return_def raise_def
      split: prod.splits option.splits if_splits)

lemma within_sleep: "within {} {EvSleep n} (sleep dl n)"
  by (auto simp: within_def confined_def sleep_def timed_def log_def return_def
      split: option.splits if_splits)

lemma set_content_other: "p \<noteq> path \<Longrightarrow> set_content path c m p = m p"
  by (cases c) auto

lemma within_tts_save: "within {path} {EvTtsSave path} (tts_save B dl t path)"
  by (auto simp: within_def confined_def tts_save_def timed_def log_def put_file_def
      set_content_other split: prod.splits option.splits if_splits sum.splits)

lemma within_if: "within P A a \<Longrightarrow> within P A b \<Longrightarrow> within P A (if c then a else b)"
  by simp

lemma within_retry_sleep:
  "a < m - 1 \<Longrightarrow> m \<le> 3 \<Longrightarrow> {EvSleep 2, EvSleep 4} \<subseteq> A \<Longrightarrow>
   within {} A (sleep dl ((a + 1) * 2))"
proof -
  assume "a < m - 1" "m \<le> 3" and A: "{EvSleep 2, EvSleep 4} \<subseteq> A"
  then consider "a = 0" | "a = 1" by arith
  then show ?thesis
  proof cases
    case 1
    have "within {} A (sleep dl 2)"
      by (rule within_mono [OF within_sleep]) (use A in auto)
    with 1 show ?thesis by simp
  next
    case 2
    have "within {} A (sleep dl 4)"
      by (rule within_mono [OF within_sleep]) (use A in auto)
    with 2 show ?thesis by simp
  qed
qed

lemma within_create_tts_attempts:
  assumes "m \<le> 3"
  shows "within {} {EvGTTS text language, EvSleep 2, EvSleep 4}
           (create_tts_attempts B dl text language m atts)"
proof (induction atts)
  case Nil
  show ?case by (simp add: within_def confined_refl)
next
  case (Cons a atts)
  let ?A = "{EvGTTS text language, EvSleep 2, EvSleep 4}"
  have g: "within {} ?A (gTTS B dl text language)"
    by (rule within_mono [OF within_gTTS]) auto
  have h: "within {} ?A
     (if a < m - 1
      then bnd (sleep dl ((a + 1) * 2)) (\<lambda>_. create_tts_attempts B dl text language m atts)
      else raise e)" for e
  proof (cases "a < m - 1")
    case True
    have "within {} ?A (sleep dl ((a + 1) * 2))"
      by (rule within_retry_sleep [OF True assms]) simp
    with Cons.IH
    have "within {} ?A
       (bnd (sleep dl ((a + 1) * 2)) (\<lambda>_. create_tts_attempts B dl text language m atts))"
      by (intro within_bnd)
    with True show ?thesis by (simp only: if_True)
  next
    case False
    then show ?thesis by (simp add: within_raise)
  qed
  have "within {} ?A
     (try_except
       (bnd (gTTS B dl text language) (\<lambda>t. return (Some t)))
       (\<lambda>e. if a < m - 1
            then bnd (sleep dl ((a + 1) * 2))
                   (\<lambda>_. create_tts_attempts B dl text language m atts)
            else raise e))"
    by (intro within_try_except within_bnd within_return g h)
  then show ?case by (simp add: within_def)
qed

lemma within_save_tts_attempts:
  assumes "m \<le> 3"
  shows "within {path} {EvTtsSave path, EvSleep 2, EvSleep 4}
           (save_tts_attempts B dl t path m atts)"
proof (induction atts)
  case Nil
  show ?case by (simp add: within_def confined_refl)
next
  case (Cons a atts)
  let ?A = "{EvTtsSave path, EvSleep 2, EvSleep 4}"
  have g: "within {path} ?A (tts_save B dl t path)"
    by (rule within_mono [OF within_tts_save]) auto
  have h: "within {path} ?A
     (if a < m - 1
      then bnd (sleep dl ((a + 1) * 2)) (\<lambda>_. save_tts_attempts B dl t path m atts)
      else raise e)" for e
  proof (cases "a < m - 1")
    case True
    have "within {} ?A (sleep dl ((a + 1) * 2))"
      by (rule within_retry_sleep [OF True assms]) simp
    then have "within {path} ?A (sleep dl ((a + 1) * 2))"
      by (rule within_mono) auto
    with Cons.IH
    have "within {path} ?A
       (bnd (sleep dl ((a + 1) * 2)) (\<lambda>_. save_tts_attempts B dl t path m atts))"
      by (intro within_bnd)
    with True show ?thesis by (simp only: if_True)
  next
    case False
    then show ?thesis by (simp add: within_raise)
  qed
  have "within {path} ?A
     (try_except (tts_save B dl t path)
       (\<lambda>e. if a < m - 1
            then bnd (sleep dl ((a + 1) * 2)) (\<lambda>_. save_tts_attempts B dl t path m atts)
            else raise e))"
    by (intro within_try_except g h)
  then show ?case by (simp add: within_def)
qed

lemma within_synth_chunk:
  "within {path} {EvGTTS chunk language, EvTtsSave path, EvSleep 2, EvSleep 4}
     (synth_chunk B dl chunk language path)"
  unfolding synth_chunk_def create_tts_with_retry_def save_tts_with_retry_def
  by (intro within_bnd within_mono [OF within_create_tts_attempts]
      within_mono [OF within_save_tts_attempts]) auto

lemma within_convert:
  "within P A (convert_body B dl text out language) \<Longrightarrow>
   within P A (convert B dl text out language)"
  unfolding convert_def
  by (intro within_try_except within_bnd within_return)

text \<open>One call of the backend, run to its end.\<close>

lemma gTTS_None_cases:
  assumes "gTTS B None text language w = (r, w')"
  obtains (ok) d where "gtts_init B w text language = (d, None)"
      "r = Return \<lparr>tts_text = text, tts_lang = language, tts_slow = False\<rparr>"
      "fs w' = fs w" "clock w' = clock w + d" "trace w' = trace w @ [EvGTTS text language]"
  | (fail) d e where "gtts_init B w text language = (d, Some e)" "r = Raise e"
      "fs w' = fs w" "clock w' = clock w + d" "trace w' = trace w @ [EvGTTS text language]"
proof (cases "gtts_init B w text language")
  case (Pair d x)
  show ?thesis
  proof (cases x)
    case None
    with Pair assms show ?thesis
      by (intro ok [of d]) (auto simp: gTTS_def timed_def log_def return_def)
  next
    case (Some e)
    with Pair assms show ?thesis
      by (intro fail [of d e]) (auto simp: gTTS_def timed_def log_def raise_def)
  qed
qed

lemma tts_save_None_cases:
  assumes "tts_save B None (Some t) path w = (r, w')"
  obtains (ok) d audio where "gtts_save B w t = (d, Inr audio)" "r = Return ()"
      "fs w' = (fs w)(path \<mapsto> audio)" "clock w' = clock w + d"
      "trace w' = trace w @ [EvTtsSave path]"
  | (fail) d e left where "gtts_save B w t = (d, Inl (e, left))" "r = Raise e"
      "fs w' = set_content path left (fs w)" "clock w' = clock w + d"
      "trace w' = trace w @ [EvTtsSave path]"
proof (cases "gtts_save B w t")
  case (Pair d x)
  show ?thesis
  proof (cases x)
    case (Inr audio)
    with Pair assms show ?thesis
      by (intro ok [of d audio]) (auto simp: tts_save_def timed_def log_def put_file_def)
  next
    case (Inl el)
    obtain e left where "el = (e, left)" by force
    with Inl Pair assms show ?thesis
      by (intro fail [of d e left]) (auto simp: tts_save_def timed_def log_def put_file_def)
  qed
qed

lemma set_content_upd: "(set_content p c m)(p \<mapsto> a) = m(p \<mapsto> a)"
  by (cases c) auto

text \<open>
  The constructor wrapper run to its end: one, two or three attempts with the sleeps of
  2 and 4 seconds between them; it returns the object made for the text or raises.
\<close>

lemma create_tts_run:
  assumes run: "create_tts_with_retry B None text language 3 w = (r, w')"
  shows "fs w' = fs w
       \<and> (\<exists>gs. trace w' = trace w @ gs
            \<and> gs \<in> {[EvGTTS text language],
                      [EvGTTS text language, EvSleep 2, EvGTTS text language],
                      [EvGTTS text language, EvSleep 2, EvGTTS text language, EvSleep 4,
                       EvGTTS text language]})
       \<and> (r = Return (Some \<lparr>tts_text = text, tts_lang = language, tts_slow = False\<rparr>)
            \<or> (\<exists>e. r = Raise e \<and> trace w' = trace w @
                  [EvGTTS text language, EvSleep 2, EvGTTS text language, EvSleep 4,
                   EvGTTS text language]))"
proof -
  let ?g = "gTTS B None text language"
  note defs = create_tts_with_retry_def upt_3 try_except_def bnd_def return_def raise_def
    sleep_None
  obtain r1 w1 where g1: "?g w = (r1, w1)" by force
  from g1 show ?thesis
  proof (cases rule: gTTS_None_cases)
    case (ok d)
    from run g1 ok(2) have "r = Return (Some \<lparr>tts_text = text, tts_lang = language, tts_slow = False\<rparr>)"
      "w' = w1" by (simp_all add: defs)
    with ok show ?thesis by simp
  next
    case (fail d e1)
    note f1 = fail
    obtain r2 w2 where
      g2: "?g (w1\<lparr>clock := clock w1 + 2, trace := trace w1 @ [EvSleep 2]\<rparr>) = (r2, w2)" by force
    from g2 show ?thesis
    proof (cases rule: gTTS_None_cases)
      case (ok d)
      from run g1 g2 f1(2) ok(2)
      have "r = Return (Some \<lparr>tts_text = text, tts_lang = language, tts_slow = False\<rparr>)"
        "w' = w2" by (simp_all add: defs)
      with ok f1 show ?thesis by simp
    next
      case (fail d e2)
      note f2 = fail
      obtain r3 w3 where
        g3: "?g (w2\<lparr>clock := clock w2 + 4, trace := trace w2 @ [EvSleep 4]\<rparr>) = (r3, w3)" by force
      from g3 show ?thesis
      proof (cases rule: gTTS_None_cases)
        case (ok d)
        from run g1 g2 g3 f1(2) f2(2) ok(2)
        have "r = Return (Some \<lparr>tts_text = text, tts_lang = language, tts_slow = False\<rparr>)"
          "w' = w3" by (simp_all add: defs)
        with ok f1 f2 show ?thesis by simp
      next
        case (fail d e3)
        from run g1 g2 g3 f1(2) f2(2) fail(2)
        have "r = Raise e3" "w' = w3" by (simp_all add: defs)
        with fail f1 f2 show ?thesis by simp
      qed
    qed
  qed
qed

text \<open>The save wrapper likewise; when it returns, the path holds the audio of the last save.\<close>

lemma save_tts_run:
  assumes run: "save_tts_with_retry B None (Some t) path 3 w = (r, w')"
  shows "(\<exists>vs. trace w' = trace w @ vs
            \<and> vs \<in> {[EvTtsSave path],
                      [EvTtsSave path, EvSleep 2, EvTtsSave path],
                      [EvTtsSave path, EvSleep 2, EvTtsSave path, EvSleep 4, EvTtsSave path]})
       \<and> ((r = Return ()
             \<and> (\<exists>wc d audio. gtts_save B wc t = (d, Inr audio) \<and> fs w' = (fs w)(path \<mapsto> audio)))
            \<or> (\<exists>e. r = Raise e \<and> trace w' = trace w @
                  [EvTtsSave path, EvSleep 2, EvTtsSave path, EvSleep 4, EvTtsSave path]))"
proof -
  let ?g = "tts_save B None (Some t) path"
  note defs = save_tts_with_retry_def upt_3 try_except_def bnd_def return_def raise_def
    sleep_None
  obtain r1 w1 where g1: "?g w = (r1, w1)" by force
  from g1 show ?thesis
  proof (cases rule: tts_save_None_cases)
    case (ok d audio)
    from run g1 ok(2) have "r = Return ()" "w' = w1" by (simp_all add: defs)
    with ok show ?thesis by auto
  next
    case (fail d e1 l1)
    note f1 = fail
    let ?v1 = "w1\<lparr>clock := clock w1 + 2, trace := trace w1 @ [EvSleep 2]\<rparr>"
    obtain r2 w2 where g2: "?g ?v1 = (r2, w2)" by force
    from g2 show ?thesis
    proof (cases rule: tts_save_None_cases)
      case (ok d audio)
      from run g1 g2 f1(2) ok(2) have "r = Return ()" "w' = w2" by (simp_all add: defs)
      moreover from ok(3) f1(3) have "fs w2 = (fs w)(path \<mapsto> audio)"
        by (simp add: set_content_upd)
      moreover from ok(5) f1(5)
      have "trace w2 = trace w @ [EvTtsSave path, EvSleep 2, EvTtsSave path]" by simp
      ultimately show ?thesis using ok(1) by blast
    next
      case (fail d e2 l2)
      note f2 = fail
      let ?v2 = "w2\<lparr>clock := clock w2 + 4, trace := trace w2 @ [EvSleep 4]\<rparr>"
      obtain r3 w3 where g3: "?g ?v2 = (r3, w3)" by force
      from g3 show ?thesis
      proof (cases rule: tts_save_None_cases)
        case (ok d audio)
        from run g1 g2 g3 f1(2) f2(2) ok(2) have "r = Return ()" "w' = w3"
          by (simp_all add: defs)
        moreover from ok(3) f2(3) f1(3) have "fs w3 = (fs w)(path \<mapsto> audio)"
          by (simp add: set_content_upd)
        moreover from ok(5) f2(5) f1(5)
        have "trace w3 = trace w @
            [EvTtsSave path, EvSleep 2, EvTtsSave path, EvSleep 4, EvTtsSave path]" by simp
        ultimately show ?thesis using ok(1) by blast
      next
        case (fail d e3 l3)
        from run g1 g2 g3 f1(2) f2(2) fail(2) have "r = Raise e3" "w' = w3"
          by (simp_all add: defs)
        moreover from fail(5) f2(5) f1(5)
        have "trace w3 = trace w @
            [EvTtsSave path, EvSleep 2, EvTtsSave path, EvSleep 4, EvTtsSave path]" by simp
        ultimately show ?thesis by blast
      qed
    qed
  qed
qed

text \<open>
  C7: a text of at most \<open>max_chunk_size\<close> = 1000 characters is not split.  The conversion
  is one call of the constructor wrapper on the whole text followed by one call of the
  save wrapper on the output path; whatever the backend does and whenever the run is
  observed, the only text submitted is the text itself, the only path saved to or
  changed is the output path (no temporary chunk file), and no file is opened, read or
  removed (no assembly).  Run to its end from \<open>w\<close>, the conversion makes one, two or three
  constructor calls for the text, with the sleeps of 2 and 4 seconds between them, then,
  if the constructor has returned, one, two or three saves to the output path, and
  nothing else; it records success only after a save, and then the output path holds the
  audio that the backend gave for the text, and it records an error otherwise.  When
  the backend serves the first constructor call and the first save, the run is exactly
  these two calls and the output path holds the audio of that save.
\<close>

theorem short_text_is_one_chunk:
  assumes "length s \<le> max_chunk_size"
  shows "max_chunk_size = 1000
       \<and> convert_body B dl s out language =
           bnd (create_tts_with_retry B dl s language 3)
             (\<lambda>t. save_tts_with_retry B dl t out 3)
       \<and> within {out} {EvGTTS s language, EvTtsSave out, EvSleep 2, EvSleep 4}
           (convert B dl s out language)
       \<and> (case convert B None s out language w of
            (r, w') \<Rightarrow>
              \<exists>gs vs. trace w' = trace w @ gs @ vs
                \<and> gs \<in> {[EvGTTS s language],
                          [EvGTTS s language, EvSleep 2, EvGTTS s language],
                          [EvGTTS s language, EvSleep 2, EvGTTS s language, EvSleep 4,
                           EvGTTS s language]}
                \<and> vs \<in> {[], [EvTtsSave out],
                          [EvTtsSave out, EvSleep 2, EvTtsSave out],
                          [EvTtsSave out, EvSleep 2, EvTtsSave out, EvSleep 4, EvTtsSave out]}
                \<and> (r = Return \<lparr>success = True, error = None\<rparr>
                     \<and> vs \<noteq> []
                     \<and> (\<exists>wc d audio.
                           gtts_save B wc \<lparr>tts_text = s, tts_lang = language, tts_slow = False\<rparr> =
                             (d, Inr audio)
                         \<and> fs w' = (fs w)(out \<mapsto> audio))
                   \<or> (\<exists>e. r = Return \<lparr>success = False, error = Some (str_exn e)\<rparr>)))
       \<and> (gtts_init B w s language = (dc, None)
          \<and> gtts_save B (w\<lparr>clock := clock w + dc, trace := trace w @ [EvGTTS s language]\<rparr>)
              \<lparr>tts_text = s, tts_lang = language, tts_slow = False\<rparr> = (ds, Inr audio)
          \<longrightarrow> convert B None s out language w =
                (Return \<lparr>success = True, error = None\<rparr>,
                 w\<lparr>fs := (fs w)(out \<mapsto> audio), clock := clock w + dc + ds,
                   trace := trace w @ [EvGTTS s language, EvTtsSave out]\<rparr>))"
proof -
  let ?t = "\<lparr>tts_text = s, tts_lang = language, tts_slow = False\<rparr>"
  have body: "convert_body B dl s out language = synth_chunk B dl s language out" for dl
    using assms by (simp add: convert_body_def)
  have "within {out} {EvGTTS s language, EvTtsSave out, EvSleep 2, EvSleep 4}
          (convert_body B dl s out language)"
    unfolding body by (rule within_synth_chunk)
  then have frame: "within {out} {EvGTTS s language, EvTtsSave out, EvSleep 2, EvSleep 4}
           (convert B dl s out language)"
    by (rule within_convert)
  have shape: "case convert B None s out language w of
            (r, w') \<Rightarrow>
              \<exists>gs vs. trace w' = trace w @ gs @ vs
                \<and> gs \<in> {[EvGTTS s language],
                          [EvGTTS s language, EvSleep 2, EvGTTS s language],
                          [EvGTTS s language, EvSleep 2, EvGTTS s language, EvSleep 4,
                           EvGTTS s language]}
                \<and> vs \<in> {[], [EvTtsSave out],
                          [EvTtsSave out, EvSleep 2, EvTtsSave out],
                          [EvTtsSave out, EvSleep 2, EvTtsSave out, EvSleep 4, EvTtsSave out]}
                \<and> (r = Return \<lparr>success = True, error = None\<rparr>
                     \<and> vs \<noteq> []
                     \<and> (\<exists>wc d audio. gtts_save B wc ?t = (d, Inr audio)
                         \<and> fs w' = (fs w)(out \<mapsto> audio))
                   \<or> (\<exists>e. r = Return \<lparr>success = False, error = Some (str_exn e)\<rparr>))"
  proof -
    obtain rc wc where c: "create_tts_with_retry B None s language 3 w = (rc, wc)" by force
    note cr = create_tts_run [OF c]
    from cr obtain gs where gs: "trace wc = trace w @ gs"
      "gs \<in> {[EvGTTS s language],
              [EvGTTS s language, EvSleep 2, EvGTTS s language],
              [EvGTTS s language, EvSleep 2, EvGTTS s language, EvSleep 4, EvGTTS s language]}"
      by blast
    from cr have fc: "fs wc = fs w" by blast
    from cr consider (made) "rc = Return (Some ?t)" | (raised) e where "rc = Raise e" by blast
    then show ?thesis
    proof cases
      case raised
      with c have "convert B None s out language w =
          (Return \<lparr>success = False, error = Some (str_exn e)\<rparr>, wc)"
        by (simp add: convert_def body synth_chunk_def try_except_def bnd_def return_def)
      moreover from gs(1) have "trace wc = trace w @ gs @ []" by simp
      ultimately show ?thesis using gs(2) by (simp only: prod.case) blast
    next
      case made
      obtain rs ws where sv: "save_tts_with_retry B None (Some ?t) out 3 wc = (rs, ws)" by force
      note sr = save_tts_run [OF sv]
      from sr obtain vs where vs: "trace ws = trace wc @ vs"
        "vs \<in> {[EvTtsSave out], [EvTtsSave out, EvSleep 2, EvTtsSave out],
                [EvTtsSave out, EvSleep 2, EvTtsSave out, EvSleep 4, EvTtsSave out]}"
        by blast
      from vs(2) have vs': "vs \<in> {[], [EvTtsSave out], [EvTtsSave out, EvSleep 2, EvTtsSave out],
                [EvTtsSave out, EvSleep 2, EvTtsSave out, EvSleep 4, EvTtsSave out]}"
        and ne: "vs \<noteq> []" by auto
      from vs(1) gs(1) have tr: "trace ws = trace w @ gs @ vs" by simp
      from sr consider (saved) wx d audio where "rs = Return ()"
          "gtts_save B wx ?t = (d, Inr audio)" "fs ws = (fs wc)(out \<mapsto> audio)"
        | (failed) e where "rs = Raise e" by blast
      then show ?thesis
      proof cases
        case saved
        with c made sv have "convert B None s out language w =
            (Return \<lparr>success = True, error = None\<rparr>, ws)"
          by (simp add: convert_def body synth_chunk_def try_except_def bnd_def return_def)
        moreover from saved fc have "\<exists>wc d audio. gtts_save B wc ?t = (d, Inr audio)
                         \<and> fs ws = (fs w)(out \<mapsto> audio)" by auto
        ultimately show ?thesis using tr gs(2) vs' ne by (simp only: prod.case) blast
      next
        case failed
        with c made sv have "convert B None s out language w =
            (Return \<lparr>success = False, error = Some (str_exn e)\<rparr>, ws)"
          by (simp add: convert_def body synth_chunk_def try_except_def bnd_def return_def)
        then show ?thesis using tr gs(2) vs' by (simp only: prod.case) blast
      qed
    qed
  qed
  have happy: "convert B None s out language w =
                (Return \<lparr>success = True, error = None\<rparr>,
                 w\<lparr>fs := (fs w)(out \<mapsto> audio), clock := clock w + dc + ds,
                   trace := trace w @ [EvGTTS s language, EvTtsSave out]\<rparr>)"
    if "gtts_init B w s language = (dc, None)"
      "gtts_save B (w\<lparr>clock := clock w + dc, trace := trace w @ [EvGTTS s language]\<rparr>) ?t =
         (ds, Inr audio)"
    using that
    by (cases w) (simp add: convert_def body synth_chunk_def create_tts_with_retry_def
        save_tts_with_retry_def upt_3 try_except_def bnd_def return_def gTTS_def tts_save_def
        timed_def log_def put_file_def add.assoc)
  have size: "max_chunk_size = 1000" by (simp add: max_chunk_size_def)
  have unf: "convert_body B dl s out language =
           bnd (create_tts_with_retry B dl s language 3)
             (\<lambda>t. save_tts_with_retry B dl t out 3)"
    by (simp add: body synth_chunk_def)
  from happy have happy': "gtts_init B w s language = (dc, None)
          \<and> gtts_save B (w\<lparr>clock := clock w + dc, trace := trace w @ [EvGTTS s language]\<rparr>)
              ?t = (ds, Inr audio)
          \<longrightarrow> convert B None s out language w =
                (Return \<lparr>success = True, error = None\<rparr>,
                 w\<lparr>fs := (fs w)(out \<mapsto> audio), clock := clock w + dc + ds,
                   trace := trace w @ [EvGTTS s language, EvTtsSave out]\<rparr>)"
    by blast
  show ?thesis
    by (intro conjI size unf frame shape happy')
qed

theorem short_text_is_one_chunk_witness:
  "length (py ''hello'') \<le> max_chunk_size
   \<and> convert backend_picky None (py ''hello'') (py ''o'') (py ''en'') world0 =
       (Return \<lparr>success = True, error = None\<rparr>,
        \<lparr>fs = [py ''o'' \<mapsto> [5]], clock = 2,
         trace = [EvGTTS (py ''hello'') (py ''en''), EvTtsSave (py ''o'')], detached = []\<rparr>)
   \<and> fs (snd (convert backend_picky None (py ''hello'') (py ''o'') (py ''en'') world_full))
       (py ''o.chunk_0.mp3'') = Some [7]"
proof -
  have short: "length (py ''hello'') \<le> max_chunk_size"
    by (simp add: py_def max_chunk_size_def)
  note inst = short_text_is_one_chunk [OF short, where B = backend_picky and dl = None
      and out = "py ''o''" and language = "py ''en''" and dc = 1 and ds = 1 and audio = "[5]"]
  have i: "gtts_init backend_picky world0 (py ''hello'') (py ''en'') = (1, None)"
    by (simp add: backend_picky_def py_def)
  have sv: "gtts_save backend_picky
      (world0\<lparr>clock := clock world0 + 1,
         trace := trace world0 @ [EvGTTS (py ''hello'') (py ''en'')]\<rparr>)
      \<lparr>tts_text = py ''hello'', tts_lang = py ''en'', tts_slow = False\<rparr> = (1, Inr [5])"
    by (simp add: backend_picky_def py_def)
  from inst [of world0] i sv
  have run: "convert backend_picky None (py ''hello'') (py ''o'') (py ''en'') world0 =
       (Return \<lparr>success = True, error = None\<rparr>,
        world0\<lparr>fs := (fs world0)(py ''o'' \<mapsto> [5]), clock := clock world0 + 1 + 1,
          trace := trace world0 @ [EvGTTS (py ''hello'') (py ''en''), EvTtsSave (py ''o'')]\<rparr>)"
    by blast
  have other: "py ''o.chunk_0.mp3'' \<notin> {py ''o''}"
    by (simp add: py_def)
  have before: "fs world_full (py ''o.chunk_0.mp3'') = Some [7]"
    by (simp add: world_full_def py_def)
  from inst [of world_full]
  have "confined {py ''o''}
          {EvGTTS (py ''hello'') (py ''en''), EvTtsSave (py ''o''), EvSleep 2, EvSleep 4}
          world_full
          (snd (convert backend_picky None (py ''hello'') (py ''o'') (py ''en'') world_full))"
    by (simp add: within_def)
  then have "fs (snd (convert backend_picky None (py ''hello'') (py ''o'') (py ''en'') world_full))
       (py ''o.chunk_0.mp3'') = fs world_full (py ''o.chunk_0.mp3'')"
    using other unfolding confined_def by blast
  with short run before show ?thesis by (simp add: world0_def)
qed

lemma bnd_ReturnE:
  assumes "bnd m k w = (Return y, w')"
  obtains x w1 where "m w = (Return x, w1)" "k x w1 = (Return y, w')"
proof -
  obtain r w1 where m: "m w = (r, w1)" by force
  with assms show ?thesis by (cases r) (auto simp: bnd_def intro: that)
qed

lemma synth_chunks_append_return:
  "synth_chunks B dl out language n xs temps w = (Return temps1, w1) \<Longrightarrow>
   synth_chunks B dl out language n (xs @ ys) temps w =
     synth_chunks B dl out language n ys temps1 w1"
proof (induction xs arbitrary: temps w)
  case Nil
  then show ?case by simp
next
  case (Cons x xs)
  obtain i c where x: "x = (i, c)" by force
  from Cons.prems [unfolded x synth_chunks.simps]
  obtain u wa where a: "synth_chunk B dl c language (temp_file_name out i) w = (Return u, wa)"
    and b0: "bnd (if i < n - 1 then sleep dl chunk_delay else return ())
          (\<lambda>_. synth_chunks B dl out language n xs (temps @ [temp_file_name out i])) wa =
         (Return temps1, w1)"
    by (rule bnd_ReturnE)
  from b0 obtain v wb where b: "(if i < n - 1 then sleep dl chunk_delay else return ()) wa = (Return v, wb)"
    and c: "synth_chunks B dl out language n xs (temps @ [temp_file_name out i]) wb =
         (Return temps1, w1)"
    by (rule bnd_ReturnE)
  from Cons.IH [OF c] a b show ?case
    unfolding x by (simp add: bnd_def)
qed

lemma synth_chunks_fail_head:
  "synth_chunk B dl chunk language (temp_file_name out i) w = (Raise e, we) \<Longrightarrow>
   synth_chunks B dl out language n ((i, chunk) # rest) temps w = (Raise e, we)"
  by (simp add: bnd_def)

lemma enumerate_split:
  "k < length cs \<Longrightarrow>
   enumerate 0 cs = take k (enumerate 0 cs) @ (k, cs ! k) # drop (Suc k) (enumerate 0 cs)"
  using id_take_nth_drop [of k "enumerate 0 cs"] by (simp add: nth_enumerate_eq)

lemma convert_of_raise:
  "convert_body B dl text out language w = (Raise e, we) \<Longrightarrow>
   convert B dl text out language w =
     (Return \<lparr>success = False, error = Some (str_exn e)\<rparr>, we)"
  by (simp add: convert_def try_except_def bnd_def return_def)

lemma text_to_mp3_of_failed_convert:
  "convert B (Some (clock w + timeout)) text out language w =
     (Return \<lparr>success = False, error = Some msg\<rparr>, we) \<Longrightarrow>
   text_to_mp3_optimized B text out language timeout w =
     (Raise (Exception (py ''Error generating MP3: '' @ msg)), we)"
  by (simp add: text_to_mp3_optimized_def str_opt_def)

lemma gTTS_trace:
  "gTTS B dl text language w = (r, w') \<Longrightarrow> trace w' = trace w @ [EvGTTS text language]"
  by (auto simp: gTTS_def timed_def log_def return_def raise_def
      split: prod.splits option.splits if_splits)

lemma sleep_trace:
  "sleep dl n w = (r, w') \<Longrightarrow> trace w' = trace w @ [EvSleep n]"
  by (auto simp: sleep_def timed_def log_def return_def split: option.splits if_splits)

lemma sleep_no_raise: "sleep dl n w = (Raise e, w') \<Longrightarrow> False"
  by (auto simp: sleep_def timed_def log_def return_def split: option.splits if_splits)

lemma tts_save_trace:
  "tts_save B dl (Some t) path w = (r, w') \<Longrightarrow> trace w' = trace w @ [EvTtsSave path]"
  by (auto simp: tts_save_def timed_def log_def put_file_def
      split: prod.splits option.splits if_splits sum.splits)

lemma create_tts_raises_after_three:
  assumes "create_tts_with_retry B dl text language 3 w = (Raise e, w')"
  shows "trace w' = trace w @
     [EvGTTS text language, EvSleep 2, EvGTTS text language, EvSleep 4, EvGTTS text language]"
proof -
  let ?g = "gTTS B dl text language"
  obtain r1 w1 where g1: "?g w = (r1, w1)" by force
  obtain s1 v1 where s1: "sleep dl 2 w1 = (s1, v1)" by force
  obtain r2 w2 where g2: "?g v1 = (r2, w2)" by force
  obtain s2 v2 where s2: "sleep dl 4 w2 = (s2, v2)" by force
  obtain r3 w3 where g3: "?g v2 = (r3, w3)" by force
  note t = gTTS_trace [OF g1] sleep_trace [OF s1] gTTS_trace [OF g2] sleep_trace [OF s2]
    gTTS_trace [OF g3]
  from assms g1 s1 g2 s2 g3 have "w' = w3"
    by (cases r1; cases s1; cases r2; cases s2; cases r3)
       (auto simp: create_tts_with_retry_def upt_3 try_except_def bnd_def return_def raise_def
        dest: sleep_no_raise)
  with t show ?thesis by simp
qed

lemma create_tts_returns_some:
  assumes "create_tts_with_retry B dl text language 3 w = (Return x, w')"
  shows "\<exists>t. x = Some t"
proof -
  let ?g = "gTTS B dl text language"
  obtain r1 w1 where g1: "?g w = (r1, w1)" by force
  obtain s1 v1 where s1: "sleep dl 2 w1 = (s1, v1)" by force
  obtain r2 w2 where g2: "?g v1 = (r2, w2)" by force
  obtain s2 v2 where s2: "sleep dl 4 w2 = (s2, v2)" by force
  obtain r3 w3 where g3: "?g v2 = (r3, w3)" by force
  from assms g1 s1 g2 s2 g3 show ?thesis
    by (cases r1; cases s1; cases r2; cases s2; cases r3)
       (auto simp: create_tts_with_retry_def upt_3 try_except_def bnd_def return_def raise_def
        dest: sleep_no_raise)
qed

lemma save_tts_raises_after_three:
  assumes "save_tts_with_retry B dl (Some t) path 3 w = (Raise e, w')"
  shows "trace w' = trace w @
     [EvTtsSave path, EvSleep 2, EvTtsSave path, EvSleep 4, EvTtsSave path]"
proof -
  let ?g = "tts_save B dl (Some t) path"
  obtain r1 w1 where g1: "?g w = (r1, w1)" by force
  obtain s1 v1 where s1: "sleep dl 2 w1 = (s1, v1)" by force
  obtain r2 w2 where g2: "?g v1 = (r2, w2)" by force
  obtain s2 v2 where s2: "sleep dl 4 w2 = (s2, v2)" by force
  obtain r3 w3 where g3: "?g v2 = (r3, w3)" by force
  note t = tts_save_trace [OF g1] sleep_trace [OF s1] tts_save_trace [OF g2] sleep_trace [OF s2]
    tts_save_trace [OF g3]
  from assms g1 s1 g2 s2 g3 have "w' = w3"
    by (cases r1; cases s1; cases r2; cases s2; cases r3)
       (auto simp: save_tts_with_retry_def upt_3 try_except_def bnd_def return_def raise_def
        dest: sleep_no_raise)
  with t show ?thesis by simp
qed

lemma synth_chunk_raises_after_three:
  assumes "synth_chunk B dl chunk language path w = (Raise e, w')"
  shows "(\<exists>pre. trace w' = pre @
            [EvGTTS chunk language, EvSleep 2, EvGTTS chunk language, EvSleep 4,
             EvGTTS chunk language])
       \<or> (\<exists>pre. trace w' = pre @
            [EvTtsSave path, EvSleep 2, EvTtsSave path, EvSleep 4, EvTtsSave path])"
proof -
  obtain r1 w1 where c: "create_tts_with_retry B dl chunk language 3 w = (r1, w1)" by force
  show ?thesis
  proof (cases r1)
    case (Raise e1)
    with assms c have "w' = w1" "e1 = e" by (simp_all add: synth_chunk_def bnd_def)
    with create_tts_raises_after_three [of B dl chunk language w e w1] c Raise
    show ?thesis by blast
  next
    case (Return x)
    with create_tts_returns_some [of B dl chunk language w x w1] c
    obtain t where x: "x = Some t" by blast
    with assms c Return have "save_tts_with_retry B dl (Some t) path 3 w1 = (Raise e, w')"
      by (simp add: synth_chunk_def bnd_def)
    from save_tts_raises_after_three [OF this] show ?thesis by blast
  next
    case (Running rest)
    with assms c show ?thesis by (simp add: synth_chunk_def bnd_def)
  qed
qed

lemma convert_returns_or_runs:
  "fst (convert B dl text out language w) \<noteq> Raise e"
  by (simp add: convert_def try_except_def bnd_def return_def split: prod.split outcome.split)

lemma timeout_message_not_error:
  "timeout_message timeout \<noteq> py ''Error generating MP3: '' @ d"
  by (simp add: timeout_message_def py_def)

text \<open>
  What the caller of the thread sees, from the run of the thread to its end.
\<close>

lemma text_to_mp3_by_end:
  assumes run: "convert B None text out language w = (r, w_end)"
  shows "\<exists>res. r = Return res \<and> detached w_end = detached w
     \<and> (clock w_end \<le> clock w + timeout \<longrightarrow>
          text_to_mp3_optimized B text out language timeout w =
            (if success res then Return ()
             else Raise (Exception (py ''Error generating MP3: '' @ str_opt (error res))),
             w_end))
     \<and> (clock w + timeout < clock w_end \<longrightarrow>
          (\<exists>rest w1. convert B (Some (clock w + timeout)) text out language w = (Running rest, w1)
             \<and> clock w1 = clock w + timeout \<and> detached w1 = detached w
             \<and> rest w1 = (r, w_end)
             \<and> text_to_mp3_optimized B text out language timeout w =
                 (Raise (Exception (timeout_message timeout)),
                  w1\<lparr>detached := detached w1 @ [thread_of rest]\<rparr>)))"
proof -
  note d = observableD [OF observable_convert run]
  from convert_returns_or_runs [of B None "text" out language w] run d(1)
  obtain res where r: "r = Return res" by (cases r) auto
  have intime: "text_to_mp3_optimized B text out language timeout w =
      (if success res then Return ()
       else Raise (Exception (py ''Error generating MP3: '' @ str_opt (error res))), w_end)"
    if "clock w_end \<le> clock w + timeout"
  proof -
    from that have "clock w + timeout < clock w \<or> clock w_end \<le> clock w + timeout" by simp
    from d(4) [OF this] r show ?thesis by (simp add: text_to_mp3_optimized_def)
  qed
  have late: "\<exists>rest w1. convert B (Some (clock w + timeout)) text out language w = (Running rest, w1)
             \<and> clock w1 = clock w + timeout \<and> detached w1 = detached w
             \<and> rest w1 = (r, w_end)
             \<and> text_to_mp3_optimized B text out language timeout w =
                 (Raise (Exception (timeout_message timeout)),
                  w1\<lparr>detached := detached w1 @ [thread_of rest]\<rparr>)"
    if "clock w + timeout < clock w_end"
  proof -
    have "clock w \<le> clock w + timeout" by simp
    from d(5) [OF this that] obtain rest w1 where p:
      "convert B (Some (clock w + timeout)) text out language w = (Running rest, w1)"
      "clock w1 = clock w + timeout" "detached w1 = detached w" "rest w1 = (r, w_end)"
      by blast
    from p(1) have "text_to_mp3_optimized B text out language timeout w =
                 (Raise (Exception (timeout_message timeout)),
                  w1\<lparr>detached := detached w1 @ [thread_of rest]\<rparr>)"
      by (simp add: text_to_mp3_optimized_def)
    with p show ?thesis by blast
  qed
  from r d(3) intime late show ?thesis by blast
qed

lemmas eval_defs =
  upload_file_def handle_upload_def ensure_folders_def extract_text_def file_save_def
  validate_pdf_def fitz_open_def pdf_to_text_def convert_and_respond_def error_cleanup_def
  remove_if_exists_def os_path_exists_def os_remove_def
  text_to_mp3_optimized_def convert_def convert_body_def synth_chunk_def
  create_tts_with_retry_def save_tts_with_retry_def upt_3 gTTS_def tts_save_def timed_def
  sleep_def log_def put_file_def bnd_def try_except_def return_def raise_def
  allowed_file_def after_last_dot_def py_lower_def py_strip_def py_isspace_def cap_text_def
  max_size_def max_text_length_def max_chunk_size_def pick_language_def supported_languages_def
  mp3_filename_of_def pdf_filename_of_def path_join_def UPLOAD_FOLDER_def OUTPUT_FOLDER_def
  str_opt_def timeout_message_def json_error_def Let_def

text \<open>
  C5 as claimed does not hold when the chunk fails after the deadline.  With a backend
  whose constructor fails after 400 seconds, the only chunk of the text \<open>hi\<close> exhausts
  its three attempts at 1206 seconds and the thread records the error \<open>503\<close>; the
  caller, which waits 900 seconds, has raised the timeout exception by then, and not
  \<open>Error generating MP3: 503\<close>.
\<close>

theorem failed_chunk_after_deadline_counterexample:
  "length (py ''hi'') \<le> max_chunk_size
   \<and> synth_chunk backend_stall None (py ''hi'') (py ''en'') (py ''o'') world0 =
       (Raise (Exception (py ''503'')),
        \<lparr>fs = Map.empty, clock = 1206,
         trace = [EvGTTS (py ''hi'') (py ''en''), EvSleep 2, EvGTTS (py ''hi'') (py ''en''),
                  EvSleep 4, EvGTTS (py ''hi'') (py ''en'')], detached = []\<rparr>)
   \<and> convert backend_stall None (py ''hi'') (py ''o'') (py ''en'') world0 =
       (Return \<lparr>success = False, error = Some (py ''503'')\<rparr>,
        \<lparr>fs = Map.empty, clock = 1206,
         trace = [EvGTTS (py ''hi'') (py ''en''), EvSleep 2, EvGTTS (py ''hi'') (py ''en''),
                  EvSleep 4, EvGTTS (py ''hi'') (py ''en'')], detached = []\<rparr>)
   \<and> fst (text_to_mp3_optimized backend_stall (py ''hi'') (py ''o'') (py ''en'') 900 world0) =
       Raise (Exception (timeout_message 900))
   \<and> clock (snd (text_to_mp3_optimized backend_stall (py ''hi'') (py ''o'') (py ''en'') 900
        world0)) = 900
   \<and> timeout_message 900 \<noteq> py ''Error generating MP3: '' @ py ''503''"
  by (simp add: eval_defs backend_stall_def world0_def py_def)

text \<open>
  C5, as amended: when a chunk's wrappers raise \<open>e\<close> after their retries (the only chunk
  of a short text, or chunk \<open>k\<close> of a long text after the chunks before it went through),
  the conversion stops in the very world \<open>we\<close> in which that chunk failed: no later chunk
  is synthesized and nothing is assembled, and the thread records \<open>str(e)\<close>.  A wrapper
  raises only after its third attempt: the calls made end with three attempts of the
  constructor, or of the save, with the sleeps of 2 and 4 seconds between them.  The
  caller raises the exception whose message is \<open>Error generating MP3: \<close> followed by
  \<open>str(e)\<close> when the failure is what it sees at its deadline (\<open>dl\<close> is the deadline), or,
  for a run followed to its end (\<open>dl = None\<close>), when the failure comes within \<open>timeout\<close>
  seconds of the start.  When it comes later, the caller has raised the timeout
  exception at the deadline instead.
\<close>

theorem failed_chunk_aborts_conversion:
  assumes fails:
        "(length text \<le> max_chunk_size \<and> synth_chunk B dl text language out w = (Raise e, we))
       \<or> (max_chunk_size < length text \<and>
          (\<exists>k temps wk.
              k < length (chunks_of text)
            \<and> synth_chunks B dl out language (length (chunks_of text))
                 (take k (enumerate 0 (chunks_of text))) [] w = (Return temps, wk)
            \<and> synth_chunk B dl (chunks_of text ! k) language (temp_file_name out k) wk =
                 (Raise e, we)))"
  shows "convert_body B dl text out language w = (Raise e, we)
       \<and> convert B dl text out language w =
           (Return \<lparr>success = False, error = Some (str_exn e)\<rparr>, we)
       \<and> ((\<exists>chunk pre. trace we = pre @
              [EvGTTS chunk language, EvSleep 2, EvGTTS chunk language, EvSleep 4,
               EvGTTS chunk language])
          \<or> (\<exists>path pre. trace we = pre @
              [EvTtsSave path, EvSleep 2, EvTtsSave path, EvSleep 4, EvTtsSave path]))
       \<and> (dl = Some (clock w + timeout) \<longrightarrow>
            text_to_mp3_optimized B text out language timeout w =
              (Raise (Exception (py ''Error generating MP3: '' @ str_exn e)), we))
       \<and> (dl = None \<and> clock we \<le> clock w + timeout \<longrightarrow>
            text_to_mp3_optimized B text out language timeout w =
              (Raise (Exception (py ''Error generating MP3: '' @ str_exn e)), we))
       \<and> (dl = None \<and> clock w + timeout < clock we \<longrightarrow>
            fst (text_to_mp3_optimized B text out language timeout w) =
              Raise (Exception (timeout_message timeout))
          \<and> clock (snd (text_to_mp3_optimized B text out language timeout w)) =
              clock w + timeout)"
proof -
  have exhausted: "(\<exists>chunk pre. trace we = pre @
              [EvGTTS chunk language, EvSleep 2, EvGTTS chunk language, EvSleep 4,
               EvGTTS chunk language])
          \<or> (\<exists>path pre. trace we = pre @
              [EvTtsSave path, EvSleep 2, EvTtsSave path, EvSleep 4, EvTtsSave path])"
    using fails
  proof (elim disjE conjE exE)
    assume "synth_chunk B dl text language out w = (Raise e, we)"
    from synth_chunk_raises_after_three [OF this] show ?thesis by blast
  next
    fix k temps wk
    assume "synth_chunk B dl (chunks_of text ! k) language (temp_file_name out k) wk = (Raise e, we)"
    from synth_chunk_raises_after_three [OF this] show ?thesis by blast
  qed
  have body: "convert_body B dl text out language w = (Raise e, we)"
    using fails
  proof (elim disjE conjE exE)
    assume "length text \<le> max_chunk_size" "synth_chunk B dl text language out w = (Raise e, we)"
    then show ?thesis by (simp add: convert_body_def)
  next
    fix k temps wk
    let ?cs = "chunks_of text"
    assume long: "max_chunk_size < length text" and k: "k < length ?cs"
      and before: "synth_chunks B dl out language (length ?cs) (take k (enumerate 0 ?cs)) [] w =
                     (Return temps, wk)"
      and chunk: "synth_chunk B dl (?cs ! k) language (temp_file_name out k) wk = (Raise e, we)"
    have "synth_chunks B dl out language (length ?cs) (enumerate 0 ?cs) [] w =
            synth_chunks B dl out language (length ?cs)
              ((k, ?cs ! k) # drop (Suc k) (enumerate 0 ?cs)) temps wk"
      by (subst enumerate_split [OF k]) (rule synth_chunks_append_return [OF before])
    also have "\<dots> = (Raise e, we)"
      by (rule synth_chunks_fail_head [OF chunk])
    finally show ?thesis
      using long by (simp add: convert_body_def bnd_def)
  qed
  from convert_of_raise [OF body]
  have conv: "convert B dl text out language w =
                (Return \<lparr>success = False, error = Some (str_exn e)\<rparr>, we)" .
  have seen: "text_to_mp3_optimized B text out language timeout w =
              (Raise (Exception (py ''Error generating MP3: '' @ str_exn e)), we)"
    if "dl = Some (clock w + timeout)"
    using text_to_mp3_of_failed_convert [OF conv [unfolded that]] .
  have intime: "text_to_mp3_optimized B text out language timeout w =
              (Raise (Exception (py ''Error generating MP3: '' @ str_exn e)), we)"
    if "dl = None \<and> clock we \<le> clock w + timeout"
  proof -
    from that conv have c: "convert B None text out language w =
                (Return \<lparr>success = False, error = Some (str_exn e)\<rparr>, we)" by simp
    from text_to_mp3_by_end [OF c, of timeout] that show ?thesis
      by (simp add: str_opt_def)
  qed
  have late: "fst (text_to_mp3_optimized B text out language timeout w) =
              Raise (Exception (timeout_message timeout))
          \<and> clock (snd (text_to_mp3_optimized B text out language timeout w)) =
              clock w + timeout"
    if "dl = None \<and> clock w + timeout < clock we"
  proof -
    obtain r0 where r0: "r0 = Return \<lparr>success = False, error = Some (str_exn e)\<rparr>" by simp
    from that conv have c: "convert B None text out language w = (r0, we)" by (simp add: r0)
    from that have l: "clock w + timeout < clock we" by simp
    from text_to_mp3_by_end [OF c, of timeout] l
    obtain rest w1 where "clock w1 = clock w + timeout" "rest w1 = (r0, we)"
      "text_to_mp3_optimized B text out language timeout w =
                 (Raise (Exception (timeout_message timeout)),
                  w1\<lparr>detached := detached w1 @ [thread_of rest]\<rparr>)" by blast
    then show ?thesis by simp
  qed
  from seen intime late
  have sup: "(dl = Some (clock w + timeout) \<longrightarrow>
            text_to_mp3_optimized B text out language timeout w =
              (Raise (Exception (py ''Error generating MP3: '' @ str_exn e)), we))
       \<and> (dl = None \<and> clock we \<le> clock w + timeout \<longrightarrow>
            text_to_mp3_optimized B text out language timeout w =
              (Raise (Exception (py ''Error generating MP3: '' @ str_exn e)), we))
       \<and> (dl = None \<and> clock w + timeout < clock we \<longrightarrow>
            fst (text_to_mp3_optimized B text out language timeout w) =
              Raise (Exception (timeout_message timeout))
          \<and> clock (snd (text_to_mp3_optimized B text out language timeout w)) =
              clock w + timeout)"
    by blast
  show ?thesis
    by (rule conjI [OF body conjI [OF conv conjI [OF exhausted sup]]])
qed

lemma chunks_of_1500:
  "chunks_of (replicate 1500 (97::nat)) = [replicate 1000 97, replicate 500 97]"
  by (simp add: chunks_of_def max_chunk_size_def py_range.simps py_slice_def)

theorem failed_chunk_aborts_conversion_witness:
  "text_to_mp3_optimized backend_picky (replicate 1500 97) (py ''o'') (py ''en'') 900 world0 =
     (Raise (Exception (py ''Error generating MP3: 429'')),
      \<lparr>fs = [py ''o.chunk_0.mp3'' \<mapsto> [1000]], clock = 13,
       trace = [EvGTTS (replicate 1000 97) (py ''en''), EvTtsSave (py ''o.chunk_0.mp3''),
                EvSleep 2,
                EvGTTS (replicate 500 97) (py ''en''), EvSleep 2,
                EvGTTS (replicate 500 97) (py ''en''), EvSleep 4,
                EvGTTS (replicate 500 97) (py ''en'')], detached = []\<rparr>)"
proof -
  let ?text = "replicate 1500 (97::nat)"
  let ?wk = "\<lparr>fs = [py ''o.chunk_0.mp3'' \<mapsto> [1000]], clock = 4,
       trace = [EvGTTS (replicate 1000 97) (py ''en''), EvTtsSave (py ''o.chunk_0.mp3''),
                EvSleep 2], detached = []\<rparr>"
  let ?we = "\<lparr>fs = [py ''o.chunk_0.mp3'' \<mapsto> [1000]], clock = 13,
       trace = [EvGTTS (replicate 1000 97) (py ''en''), EvTtsSave (py ''o.chunk_0.mp3''),
                EvSleep 2,
                EvGTTS (replicate 500 97) (py ''en''), EvSleep 2,
                EvGTTS (replicate 500 97) (py ''en''), EvSleep 4,
                EvGTTS (replicate 500 97) (py ''en'')], detached = []\<rparr>"
  have long: "max_chunk_size < length ?text"
    by (simp add: max_chunk_size_def)
  have k: "1 < length (chunks_of ?text)"
    by (simp add: chunks_of_1500)
  have before: "synth_chunks backend_picky None (py ''o'') (py ''en'')
      (length (chunks_of ?text)) (take 1 (enumerate 0 (chunks_of ?text))) [] world0 =
      (Return [py ''o.chunk_0.mp3''], ?wk)"
    by (simp add: chunks_of_1500 synth_chunk_def create_tts_with_retry_def
        save_tts_with_retry_def upt_3 try_except_def bnd_def gTTS_def tts_save_def timed_def
        sleep_def log_def return_def raise_def backend_picky_def world0_def put_file_def
        chunk_delay_def temp_file_name_def str_nat.simps py_def)
  have chunk: "synth_chunk backend_picky None (chunks_of ?text ! 1) (py ''en'')
      (temp_file_name (py ''o'') 1) ?wk = (Raise (Exception (py ''429'')), ?we)"
    by (simp add: chunks_of_1500 synth_chunk_def create_tts_with_retry_def
        upt_3 try_except_def bnd_def gTTS_def timed_def
        sleep_def log_def return_def raise_def backend_picky_def)
  have intime: "clock ?we \<le> clock world0 + 900"
    by (simp add: world0_def)
  from failed_chunk_aborts_conversion [where dl = None and timeout = 900 and w = world0,
      of ?text backend_picky "py ''en''" "py ''o''" "Exception (py ''429'')" ?we]
    long k before chunk intime
  show ?thesis by (auto simp: py_def)
qed

section \<open>The timeout\<close>

text \<open>
  C3: let the thread's run of \<open>convert\<close>, followed to its end, finish in the world
  \<open>w_end\<close> with the dictionary \<open>res\<close>.  When it finishes later than \<open>timeout\<close> seconds
  after its start, the caller raises the timeout exception, whatever \<open>res\<close> holds.  When
  it finishes within \<open>timeout\<close> seconds, the caller returns normally if \<open>res\<close> records
  success and raises \<open>Error generating MP3: ...\<close> with the recorded error otherwise, in the
  world \<open>w_end\<close>.  So the caller returns normally or raises that error only when the
  thread has finished in time.  The thread is not stopped by the timeout: the caller
  goes on at the deadline with one more thread left running, and once that thread has
  ended the world is \<open>w_end\<close>, the one in which its run to the end finishes (for a caller
  that had left no thread running before).  When the thread finishes in time, no
  thread is left running.
\<close>

theorem supervisor_raises_timeout_iff_thread_is_late:
  "case convert B None text out language w of
     (r, w_end) \<Rightarrow>
       (\<exists>res. r = Return res
          \<and> (clock w + timeout < clock w_end \<longrightarrow>
               fst (text_to_mp3_optimized B text out language timeout w) =
                 Raise (Exception (timeout_message timeout)))
          \<and> (clock w_end \<le> clock w + timeout \<longrightarrow>
               text_to_mp3_optimized B text out language timeout w =
                 (if success res then Return ()
                  else Raise (Exception (py ''Error generating MP3: '' @ str_opt (error res))),
                  w_end)))
     \<and> (fst (text_to_mp3_optimized B text out language timeout w) = Return ()
          \<or> (\<exists>d. fst (text_to_mp3_optimized B text out language timeout w) =
                  Raise (Exception (py ''Error generating MP3: '' @ d)))
        \<longrightarrow> clock w_end \<le> clock w + timeout)
     \<and> (clock w + timeout < clock w_end \<longrightarrow>
          clock (snd (text_to_mp3_optimized B text out language timeout w)) = clock w + timeout
        \<and> (\<exists>th. detached (snd (text_to_mp3_optimized B text out language timeout w)) =
                  detached w @ [th])
        \<and> (detached w = [] \<longrightarrow>
             settled (snd (text_to_mp3_optimized B text out language timeout w)) = w_end))
     \<and> (clock w_end \<le> clock w + timeout \<longrightarrow>
          detached (snd (text_to_mp3_optimized B text out language timeout w)) = detached w)"
proof -
  obtain r w_end where run: "convert B None text out language w = (r, w_end)" by force
  from text_to_mp3_by_end [OF run, of timeout]
  obtain res where r: "r = Return res" and de: "detached w_end = detached w"
    and intime: "clock w_end \<le> clock w + timeout \<Longrightarrow>
          text_to_mp3_optimized B text out language timeout w =
            (if success res then Return ()
             else Raise (Exception (py ''Error generating MP3: '' @ str_opt (error res))),
             w_end)"
    and late0: "clock w + timeout < clock w_end \<Longrightarrow>
          (\<exists>rest w1. convert B (Some (clock w + timeout)) text out language w = (Running rest, w1)
             \<and> clock w1 = clock w + timeout \<and> detached w1 = detached w
             \<and> rest w1 = (r, w_end)
             \<and> text_to_mp3_optimized B text out language timeout w =
                 (Raise (Exception (timeout_message timeout)),
                  w1\<lparr>detached := detached w1 @ [thread_of rest]\<rparr>))"
    by blast
  have late: "fst (text_to_mp3_optimized B text out language timeout w) =
      Raise (Exception (timeout_message timeout))" if "clock w + timeout < clock w_end"
    using late0 [OF that] by auto
  have left: "clock (snd (text_to_mp3_optimized B text out language timeout w)) = clock w + timeout
        \<and> (\<exists>th. detached (snd (text_to_mp3_optimized B text out language timeout w)) =
                  detached w @ [th])
        \<and> (detached w = [] \<longrightarrow>
             settled (snd (text_to_mp3_optimized B text out language timeout w)) = w_end)"
    if "clock w + timeout < clock w_end"
  proof -
    from late0 [OF that] obtain rest w1 where p:
      "clock w1 = clock w + timeout" "detached w1 = detached w" "rest w1 = (r, w_end)"
      "text_to_mp3_optimized B text out language timeout w =
                 (Raise (Exception (timeout_message timeout)),
                  w1\<lparr>detached := detached w1 @ [thread_of rest]\<rparr>)" by blast
    have "settled (w1\<lparr>detached := detached w1 @ [thread_of rest]\<rparr>) = w_end"
      if none: "detached w = []"
    proof -
      from none p(2) have "\<lparr>fs = fs w1, clock = clock w1, trace = trace w1, detached = []\<rparr> = w1"
        by (cases w1) simp
      then have "thread_of rest (fs w1, clock w1, trace w1) =
          (fs w_end, clock w_end, trace w_end)"
        by (simp add: thread_of_def p(3))
      with none p(2) de show ?thesis
        by (cases w_end) (simp add: settled_def)
    qed
    with p show ?thesis by simp
  qed
  have kept: "detached (snd (text_to_mp3_optimized B text out language timeout w)) = detached w"
    if "clock w_end \<le> clock w + timeout"
    using intime [OF that] de by simp
  have only: "clock w_end \<le> clock w + timeout"
    if "fst (text_to_mp3_optimized B text out language timeout w) = Return ()
          \<or> (\<exists>d. fst (text_to_mp3_optimized B text out language timeout w) =
                  Raise (Exception (py ''Error generating MP3: '' @ d)))"
  proof (rule ccontr)
    assume "\<not> clock w_end \<le> clock w + timeout"
    then have "clock w + timeout < clock w_end" by simp
    from late [OF this]
    have f: "fst (text_to_mp3_optimized B text out language timeout w) =
      Raise (Exception (timeout_message timeout))" .
    from that show False
    proof
      assume "fst (text_to_mp3_optimized B text out language timeout w) = Return ()"
      with f show False by simp
    next
      assume "\<exists>d. fst (text_to_mp3_optimized B text out language timeout w) =
                  Raise (Exception (py ''Error generating MP3: '' @ d))"
      then obtain d where "fst (text_to_mp3_optimized B text out language timeout w) =
                  Raise (Exception (py ''Error generating MP3: '' @ d))" ..
      with f have "timeout_message timeout = py ''Error generating MP3: '' @ d"
        by (simp only: outcome.inject exn.inject)
      with timeout_message_not_error [of timeout d] show False by (rule notE)
    qed
  qed
  have first: "\<exists>res. r = Return res
          \<and> (clock w + timeout < clock w_end \<longrightarrow>
               fst (text_to_mp3_optimized B text out language timeout w) =
                 Raise (Exception (timeout_message timeout)))
          \<and> (clock w_end \<le> clock w + timeout \<longrightarrow>
               text_to_mp3_optimized B text out language timeout w =
                 (if success res then Return ()
                  else Raise (Exception (py ''Error generating MP3: '' @ str_opt (error res))),
                  w_end))"
    using r late intime by blast
  from first only left kept show ?thesis
    unfolding run prod.case by blast
qed

lemma convert_slow_end:
  "convert backend_slow None (py ''hi'') (py ''o'') (py ''en'') world0 =
     (Return \<lparr>success = True, error = None\<rparr>,
      \<lparr>fs = [py ''o'' \<mapsto> [2]], clock = 1001,
       trace = [EvGTTS (py ''hi'') (py ''en''), EvTtsSave (py ''o'')], detached = []\<rparr>)"
  by (simp add: eval_defs backend_slow_def world0_def py_def fun_eq_iff)

lemma convert_down_end:
  "convert backend_down None (py ''hi'') (py ''o'') (py ''en'') world0 =
     (Return \<lparr>success = False, error = Some [8]\<rparr>,
      \<lparr>fs = Map.empty, clock = 9,
       trace = [EvGTTS (py ''hi'') (py ''en''), EvSleep 2, EvGTTS (py ''hi'') (py ''en''),
                EvSleep 4, EvGTTS (py ''hi'') (py ''en'')], detached = []\<rparr>)"
  by (simp add: eval_defs backend_down_def world0_def py_def fun_eq_iff)

lemma convert_picky_end:
  "convert backend_picky None (py ''hi'') (py ''o'') (py ''en'') world0 =
     (Return \<lparr>success = True, error = None\<rparr>,
      \<lparr>fs = [py ''o'' \<mapsto> [2]], clock = 2,
       trace = [EvGTTS (py ''hi'') (py ''en''), EvTtsSave (py ''o'')], detached = []\<rparr>)"
  by (simp add: eval_defs backend_picky_def world0_def py_def fun_eq_iff)

theorem supervisor_raises_timeout_iff_thread_is_late_witness:
  "fst (text_to_mp3_optimized backend_slow (py ''hi'') (py ''o'') (py ''en'') 900 world0) =
     Raise (Exception (timeout_message 900))
   \<and> clock (snd (text_to_mp3_optimized backend_slow (py ''hi'') (py ''o'') (py ''en'') 900
        world0)) = 900
   \<and> fs (snd (text_to_mp3_optimized backend_slow (py ''hi'') (py ''o'') (py ''en'') 900
        world0)) (py ''o'') = None
   \<and> settled (snd (text_to_mp3_optimized backend_slow (py ''hi'') (py ''o'') (py ''en'') 900
        world0)) =
      \<lparr>fs = [py ''o'' \<mapsto> [2]], clock = 1001,
       trace = [EvGTTS (py ''hi'') (py ''en''), EvTtsSave (py ''o'')], detached = []\<rparr>
   \<and> fst (convert backend_slow None (py ''hi'') (py ''o'') (py ''en'') world0) =
     Return \<lparr>success = True, error = None\<rparr>
   \<and> fst (text_to_mp3_optimized backend_down (py ''hi'') (py ''o'') (py ''en'') 5 world0) =
     Raise (Exception (timeout_message 5))
   \<and> fst (convert backend_down None (py ''hi'') (py ''o'') (py ''en'') world0) =
     Return \<lparr>success = False, error = Some [8]\<rparr>
   \<and> text_to_mp3_optimized backend_down (py ''hi'') (py ''o'') (py ''en'') 900 world0 =
     (Raise (Exception (py ''Error generating MP3: '' @ [8])),
      \<lparr>fs = Map.empty, clock = 9,
       trace = [EvGTTS (py ''hi'') (py ''en''), EvSleep 2, EvGTTS (py ''hi'') (py ''en''),
                EvSleep 4, EvGTTS (py ''hi'') (py ''en'')], detached = []\<rparr>)
   \<and> text_to_mp3_optimized backend_picky (py ''hi'') (py ''o'') (py ''en'') 900 world0 =
     (Return (),
      \<lparr>fs = [py ''o'' \<mapsto> [2]], clock = 2,
       trace = [EvGTTS (py ''hi'') (py ''en''), EvTtsSave (py ''o'')], detached = []\<rparr>)"
proof -
  have c0: "clock world0 = 0" "detached world0 = []" by (simp_all add: world0_def)
  note slow = supervisor_raises_timeout_iff_thread_is_late
      [where B = backend_slow and out = "py ''o''" and language = "py ''en''" and w = world0
         and timeout = 900, of "py ''hi''", unfolded convert_slow_end prod.case c0]
  note down5 = supervisor_raises_timeout_iff_thread_is_late
      [where B = backend_down and out = "py ''o''" and language = "py ''en''" and w = world0
         and timeout = 5, of "py ''hi''", unfolded convert_down_end prod.case c0]
  note down = supervisor_raises_timeout_iff_thread_is_late
      [where B = backend_down and out = "py ''o''" and language = "py ''en''" and w = world0
         and timeout = 900, of "py ''hi''", unfolded convert_down_end prod.case c0]
  note picky = supervisor_raises_timeout_iff_thread_is_late
      [where B = backend_picky and out = "py ''o''" and language = "py ''en''" and w = world0
         and timeout = 900, of "py ''hi''", unfolded convert_picky_end prod.case c0]
  from slow have t1: "fst (text_to_mp3_optimized backend_slow (py ''hi'') (py ''o'') (py ''en'') 900 world0) =
     Raise (Exception (timeout_message 900))"
    and t2: "clock (snd (text_to_mp3_optimized backend_slow (py ''hi'') (py ''o'') (py ''en'') 900
        world0)) = 900"
    and t3: "settled (snd (text_to_mp3_optimized backend_slow (py ''hi'') (py ''o'') (py ''en'') 900
        world0)) =
      \<lparr>fs = [py ''o'' \<mapsto> [2]], clock = 1001,
       trace = [EvGTTS (py ''hi'') (py ''en''), EvTtsSave (py ''o'')], detached = []\<rparr>"
    by simp_all
  have t4: "fs (snd (text_to_mp3_optimized backend_slow (py ''hi'') (py ''o'') (py ''en'') 900
        world0)) (py ''o'') = None"
    by (simp add: eval_defs backend_slow_def world0_def py_def)
  from down5 have t5: "fst (text_to_mp3_optimized backend_down (py ''hi'') (py ''o'') (py ''en'') 5 world0) =
     Raise (Exception (timeout_message 5))"
    by simp
  from down have t6: "text_to_mp3_optimized backend_down (py ''hi'') (py ''o'') (py ''en'') 900 world0 =
     (Raise (Exception (py ''Error generating MP3: '' @ [8])),
      \<lparr>fs = Map.empty, clock = 9,
       trace = [EvGTTS (py ''hi'') (py ''en''), EvSleep 2, EvGTTS (py ''hi'') (py ''en''),
                EvSleep 4, EvGTTS (py ''hi'') (py ''en'')], detached = []\<rparr>)"
    by (simp add: str_opt_def)
  from picky have t7: "text_to_mp3_optimized backend_picky (py ''hi'') (py ''o'') (py ''en'') 900 world0 =
     (Return (),
      \<lparr>fs = [py ''o'' \<mapsto> [2]], clock = 2,
       trace = [EvGTTS (py ''hi'') (py ''en''), EvTtsSave (py ''o'')], detached = []\<rparr>)"
    by simp
  from t1 t2 t3 t4 t5 t6 t7 show ?thesis
    by (simp add: convert_slow_end convert_down_end)
qed

end
